theory Spec2Isabelle
  imports Complex_Main "HOL-Library.Word" "HOL-Library.AList"
begin

section \<open>Python strings\<close>

text \<open>
  A Python \<open>str\<close> is a sequence of Unicode code points; a code point is a natural
  number. String literals of the source are written with \<open>lit\<close>.
\<close>

type_synonym pystr = "nat list"

definition lit :: "string \<Rightarrow> pystr" where
  "lit s = map of_char s"

definition startswith :: "pystr \<Rightarrow> pystr \<Rightarrow> bool" where
  "startswith s p = (take (length p) s = p)"

definition endswith :: "pystr \<Rightarrow> pystr \<Rightarrow> bool" where
  "endswith s p = (length p \<le> length s \<and> drop (length s - length p) s = p)"

text \<open>
  \<open>str.isalnum\<close> and the white space that \<open>str.strip\<close> removes are tables of the
  Unicode database, which is not part of the program: they are parameters.
\<close>

record unicode =
  isalnum :: "nat \<Rightarrow> bool"
  isspace :: "nat \<Rightarrow> bool"

definition py_strip :: "unicode \<Rightarrow> pystr \<Rightarrow> pystr" where
  "py_strip u s = rev (dropWhile (isspace u) (rev (dropWhile (isspace u) s)))"

text \<open>
  \<^verbatim>\<open>
  def sanitize_filename(name):
      return "".join(c if c.isalnum() or c in " ._-()" else "_" for c in name).strip()
  \<close>
\<close>

definition underscore :: nat where
  "underscore = of_char CHR ''_''"

definition keep_char :: "unicode \<Rightarrow> nat \<Rightarrow> bool" where
  "keep_char u c = (isalnum u c \<or> c \<in> set (lit '' ._-()''))"

definition sanitize_filename :: "unicode \<Rightarrow> pystr \<Rightarrow> pystr" where
  "sanitize_filename u name =
     py_strip u (map (\<lambda>c. if keep_char u c then c else underscore) name)"

text \<open>The ASCII part of the two tables, for evaluating examples.\<close>

definition ascii :: unicode where
  "ascii = \<lparr> isalnum = (\<lambda>c. (48 \<le> c \<and> c \<le> 57) \<or> (65 \<le> c \<and> c \<le> 90) \<or> (97 \<le> c \<and> c \<le> 122)),
             isspace = (\<lambda>c. c = 32 \<or> (9 \<le> c \<and> c \<le> 13) \<or> (28 \<le> c \<and> c \<le> 31)) \<rparr>"

section \<open>File system\<close>

text \<open>
  The file system is an association list from paths to nodes; its order is the order in
  which \<open>os.listdir\<close> reports names. A regular file has its bytes and its modification
  time; a directory has the size and the time that the system reports for it. Operations
  fail (\<open>Inl OSError\<close>, the exception of the source) only for a
  reason that the file system itself shows: a missing path, a directory where a regular
  file is needed. The state does not change between two calls of one function.
\<close>

datatype node = File (content: "8 word list") (mtime: real) | Dir (dir_size: nat) (dir_mtime: real)

type_synonym fs = "(pystr \<times> node) list"

datatype oserror = OSError

text \<open>
  \<open>os.path.join\<close> for a directory path without a trailing slash and a relative name:
  the directories of the program come from \<open>os.path.abspath\<close>, the names from
  \<open>os.listdir\<close> or from sanitized titles.
\<close>

definition join :: "pystr \<Rightarrow> pystr \<Rightarrow> pystr" where
  "join d f = d @ lit ''/'' @ f"

definition path_exists :: "fs \<Rightarrow> pystr \<Rightarrow> bool" where
  "path_exists fs p = (map_of fs p \<noteq> None)"

definition isfile :: "fs \<Rightarrow> pystr \<Rightarrow> bool" where
  "isfile fs p = (case map_of fs p of Some (File c t) \<Rightarrow> True | _ \<Rightarrow> False)"

definition isdir :: "fs \<Rightarrow> pystr \<Rightarrow> bool" where
  "isdir fs p = (case map_of fs p of Some (Dir n t) \<Rightarrow> True | _ \<Rightarrow> False)"

text \<open>\<open>os.path.getsize\<close> and \<open>os.path.getmtime\<close> raise on a missing path only.\<close>

definition getsize :: "fs \<Rightarrow> pystr \<Rightarrow> oserror + nat" where
  "getsize fs p =
     (case map_of fs p of
        Some (File c t) \<Rightarrow> Inr (length c)
      | Some (Dir n t) \<Rightarrow> Inr n
      | None \<Rightarrow> Inl OSError)"

definition getmtime :: "fs \<Rightarrow> pystr \<Rightarrow> oserror + real" where
  "getmtime fs p =
     (case map_of fs p of
        Some (File c t) \<Rightarrow> Inr t
      | Some (Dir n t) \<Rightarrow> Inr t
      | None \<Rightarrow> Inl OSError)"

definition child :: "pystr \<Rightarrow> pystr \<Rightarrow> bool" where
  "child d p = (startswith p (d @ lit ''/'') \<and> length d + 1 < length p
                \<and> of_char CHR ''/'' \<notin> set (drop (length d + 1) p))"

definition listdir :: "fs \<Rightarrow> pystr \<Rightarrow> oserror + pystr list" where
  "listdir fs d =
     (if isdir fs d
      then Inr (map (\<lambda>(p, n). drop (length d + 1) p) (filter (\<lambda>(p, n). child d p) fs))
      else Inl OSError)"

definition os_remove :: "fs \<Rightarrow> pystr \<Rightarrow> oserror + fs" where
  "os_remove fs p = (if isfile fs p then Inr (AList.delete p fs) else Inl OSError)"

section \<open>Effects\<close>

text \<open>
  The state that the functions pass along: the file system and the trace of the external
  processes the program has started, with the log lines that report how a file was
  obtained.
\<close>

datatype logmsg =
    ErrorProcessingEntry
  | SavedMP3 pystr | CopiedMP3 pystr | FailedSaveMP3
  | ConvertedSavedMP3 pystr | SavedOriginal pystr | FailedSave
  | StreamReadyMP3 pystr | StreamReadyConverted pystr | StreamReadyOriginal pystr

datatype event = FfmpegProbe | FfmpegRun pystr pystr | Log logmsg

record world =
  files :: fs
  trace :: "event list"

definition emit :: "event \<Rightarrow> world \<Rightarrow> world" where
  "emit e w = w\<lparr>trace := trace w @ [e]\<rparr>"

definition probes :: "world \<Rightarrow> nat" where
  "probes w = length (filter (\<lambda>e. e = FfmpegProbe) (trace w))"

section \<open>FFmpeg detection and conversion\<close>

text \<open>
  The transcoder is an external process. \<open>probe k\<close> is what the \<open>k\<close>-th run of
  \<open>ffmpeg -version\<close> does: the binary is not found, the run raises otherwise (a
  timeout), or it returns with an exit code and with or without output.
  \<open>ffmpeg src tgt\<close> is the conversion run: it raises (a timeout among others) or
  exits with a code, and leaves the file system as it likes.
\<close>

datatype probe_result = ProbeNotFound | ProbeRaised | ProbeExit int bool

datatype run_result = RunRaised | RunExit int

record transcoder =
  probe :: "nat \<Rightarrow> probe_result"
  ffmpeg :: "pystr \<Rightarrow> pystr \<Rightarrow> fs \<Rightarrow> run_result \<times> fs"

text \<open>
  \<^verbatim>\<open>
  def ffmpeg_exists():
      try:
          proc = subprocess.run(["ffmpeg", "-version"], ..., timeout=4)
          return proc.returncode == 0 or proc.returncode == 1 or (proc.stdout or proc.stderr)
      except FileNotFoundError:
          return False
      except Exception:
          return False
  \<close>
\<close>

fun probe_ok :: "probe_result \<Rightarrow> bool" where
  "probe_ok (ProbeExit rc out) = (rc = 0 \<or> rc = 1 \<or> out)"
| "probe_ok ProbeNotFound = False"
| "probe_ok ProbeRaised = False"

definition ffmpeg_exists :: "transcoder \<Rightarrow> world \<Rightarrow> bool \<times> world" where
  "ffmpeg_exists tc w = (probe_ok (probe tc (probes w)), emit FfmpegProbe w)"

text \<open>
  \<^verbatim>\<open>
  try:
      if os.path.exists(target_path):
          os.remove(target_path)
  except Exception:
      pass
  \<close>
\<close>

definition remove_quietly :: "pystr \<Rightarrow> fs \<Rightarrow> fs" where
  "remove_quietly p fs =
     (if path_exists fs p
      then (case os_remove fs p of Inl e \<Rightarrow> fs | Inr fs' \<Rightarrow> fs')
      else fs)"

text \<open>
  \<^verbatim>\<open>
  def convert_to_mp3_with_ffmpeg(source_path, target_path, bitrate="192k", ui_log=None):
      if not ffmpeg_exists():
          return False
      try:
          cmd = ["ffmpeg", "-y", "-i", source_path, ..., target_path]
          proc = subprocess.run(cmd, ..., timeout=120)
          if proc.returncode == 0 and os.path.exists(target_path):
              return True
          else:
              (remove target_path if it exists)
              return False
      except Exception as e:
          (remove target_path if it exists)
          return False
  \<close>
  The bit rate is the same constant at every call and is part of the command line only.
\<close>

definition convert_to_mp3_with_ffmpeg ::
    "transcoder \<Rightarrow> pystr \<Rightarrow> pystr \<Rightarrow> world \<Rightarrow> bool \<times> world" where
  "convert_to_mp3_with_ffmpeg tc source_path target_path w =
     (let (avail, w1) = ffmpeg_exists tc w in
      if \<not> avail then (False, w1)
      else
        (let (res, fs2) = ffmpeg tc source_path target_path (files w1);
             w2 = emit (FfmpegRun source_path target_path) (w1\<lparr>files := fs2\<rparr>)
         in case res of
              RunExit rc \<Rightarrow>
                if rc = 0 \<and> path_exists fs2 target_path then (True, w2)
                else (False, w2\<lparr>files := remove_quietly target_path fs2\<rparr>)
            | RunRaised \<Rightarrow> (False, w2\<lparr>files := remove_quietly target_path fs2\<rparr>)))"

text \<open>
  \<^verbatim>\<open>
  def is_real_mp3(file_path):
      try:
          with open(file_path, "rb") as f:
              header = f.read(4)
          if not header:
              return False
          if header.startswith(b"ID3"):
              return True
          if header[:2] == b"\xff\xfb":
              return True
      except Exception:
          pass
      return False
  \<close>
\<close>

definition is_real_mp3 :: "fs \<Rightarrow> pystr \<Rightarrow> bool" where
  "is_real_mp3 fs file_path =
     (case map_of fs file_path of
        Some (File c t) \<Rightarrow>
          (let header = take 4 c in
           if header = [] then False
           else if take 3 header = [0x49, 0x44, 0x33] then True
           else if take 2 header = [0xff, 0xfb] then True
           else False)
      | _ \<Rightarrow> False)"

text \<open>Concrete transcoders and files for evaluating examples.\<close>

definition tmp :: pystr where "tmp = lit ''/tmp/c''"

definition put_file :: "pystr \<Rightarrow> 8 word list \<Rightarrow> real \<Rightarrow> fs \<Rightarrow> fs" where
  "put_file p c t fs = AList.update p (File c t) fs"

definition tc_absent :: transcoder where
  "tc_absent = \<lparr> probe = (\<lambda>k. ProbeNotFound), ffmpeg = (\<lambda>s t fs. (RunRaised, fs)) \<rparr>"

definition tc_fails :: transcoder where
  "tc_fails = \<lparr> probe = (\<lambda>k. ProbeExit 0 True),
               ffmpeg = (\<lambda>s t fs. (RunExit 1, put_file t [0xff] 50 fs)) \<rparr>"

definition tc_empty :: transcoder where
  "tc_empty = \<lparr> probe = (\<lambda>k. ProbeExit 0 True),
               ffmpeg = (\<lambda>s t fs. (RunExit 0, put_file t [] 50 fs)) \<rparr>"

definition w_webm :: world where
  "w_webm = \<lparr> files = [(tmp, Dir 4096 1), (join tmp (lit ''a.webm''), File [0x1a, 0x45, 0xdf, 0xa3] 10)],
              trace = [] \<rparr>"

section \<open>Entries\<close>

text \<open>
  An entry is the dictionary that yt-dlp reports for a track. A key is absent, present
  with the value None, or present with a string; \<open>dict.get\<close> returns the default for
  an absent key only. \<open>other_keys\<close> says that the dictionary has keys besides these.
\<close>

datatype field = Absent | PyNone | Str pystr

text \<open>
  The \<open>duration\<close> key is absent, None, a number, or another value, which has its
  truth value and the result of \<open>float()\<close> (None when \<open>float()\<close> raises).
\<close>

datatype dur_field = DurAbsent | DurNone | DurNum real | DurOther bool "real option"

record entry =
  title :: field
  uploader :: field
  uploader_id :: field
  webpage_url :: field
  url :: field
  duration :: dur_field
  other_keys :: bool

text \<open>The truth value of the dictionary: it has a key.\<close>

definition dict_nonempty :: "entry \<Rightarrow> bool" where
  "dict_nonempty e =
     (title e \<noteq> Absent \<or> uploader e \<noteq> Absent \<or> uploader_id e \<noteq> Absent
      \<or> webpage_url e \<noteq> Absent \<or> url e \<noteq> Absent \<or> duration e \<noteq> DurAbsent \<or> other_keys e)"

text \<open>\<open>d.get(key, default)\<close>: None in the result is the value None of Python.\<close>

fun get_default :: "field \<Rightarrow> pystr \<Rightarrow> pystr option" where
  "get_default Absent dflt = Some dflt"
| "get_default PyNone dflt = None"
| "get_default (Str s) dflt = Some s"

text \<open>
  \<open>sanitize_filename\<close> iterates over its argument: on None it raises \<open>TypeError\<close>.
\<close>

datatype pyerror = TypeError | OtherError

fun sanitize_value :: "unicode \<Rightarrow> pystr option \<Rightarrow> pyerror + pystr" where
  "sanitize_value u None = Inl TypeError"
| "sanitize_value u (Some s) = Inr (sanitize_filename u s)"

section \<open>Duration\<close>

text \<open>
  What the libraries report for a file. \<open>mutagen.File\<close> raises, returns None, or
  returns an object: the object has its truth value (it is a mapping of the tags of the
  file, and tests false when the file has no tags) and the length under \<open>info\<close>, if
  there is one. \<open>SoundLoader.load\<close> raises, gives no length, or a length.
  \<open>has_mutagen\<close> is the flag that the imports set.
\<close>

datatype mutagen_result = MutagenRaised | MutagenNone | MutagenFile bool "real option"

datatype reading = Raised | Nothing | Length real

record media =
  has_mutagen :: bool
  mutagen_file :: "pystr \<Rightarrow> mutagen_result"
  sound_length :: "pystr \<Rightarrow> reading"


text \<open>
  \<^verbatim>\<open>
  def estimate_duration_from_size_bytes(file_path, assumed_bitrate_kbps=128):
      try:
          size = os.path.getsize(file_path)
          if size <= 0:
              return None
          return (size * 8) / (assumed_bitrate_kbps * 1000.0)
      except Exception:
          return None
  \<close>
  Floating-point numbers are real numbers here.
\<close>

definition estimate_duration_from_size_bytes :: "fs \<Rightarrow> pystr \<Rightarrow> real \<Rightarrow> real option" where
  "estimate_duration_from_size_bytes fs file_path assumed_bitrate_kbps =
     (case getsize fs file_path of
        Inl e \<Rightarrow> None
      | Inr size_bytes \<Rightarrow>
          if size_bytes \<le> 0 then None
          else if assumed_bitrate_kbps * 1000 = 0 then None
          else Some ((real size_bytes * 8) / (assumed_bitrate_kbps * 1000)))"


definition no_entry :: entry where
  "no_entry = \<lparr> title = Absent, uploader = Absent, uploader_id = Absent, webpage_url = Absent,
                url = Absent, duration = DurAbsent, other_keys = True \<rparr>"

definition md_none :: media where
  "md_none = \<lparr> has_mutagen = True, mutagen_file = (\<lambda>p. MutagenRaised), sound_length = (\<lambda>p. Nothing) \<rparr>"




section \<open>Playback timing\<close>

text \<open>
  The fields of \<open>StreamPlayer\<close> that \<open>pause\<close>, \<open>resume\<close> and the progress tick read
  and write. \<open>sound\<close> is None or the state that the loaded sound reports. Times are
  real numbers.
\<close>

datatype sound_state = Play | Stop

record player =
  sound :: "sound_state option"
  pause_flag :: bool
  play_start_time :: real
  total_paused_time :: real
  last_pause_time :: real
  pause_position :: real

text \<open>
  What the sound object does when asked: \<open>get_pos()\<close> raises, returns None or returns a
  position; the object has no \<open>seek\<close> attribute, or \<open>seek\<close> returns, or it raises.
\<close>

datatype pos_result = PosRaised | PosNone | Pos real

datatype seek_result = NoSeek | SeekOk | SeekRaised

text \<open>
  \<^verbatim>\<open>
  def pause(self):
      if self.sound and getattr(self.sound, "state", None) == "play":
          try:
              try:
                  pos = self.sound.get_pos()
                  if pos is not None:
                      self.pause_position = pos
              except Exception:
                  self.pause_position = time.time() - self.play_start_time - self.total_paused_time
              try:
                  self.sound.stop()
              except Exception:
                  pass
              self.pause_flag = True
              if self.last_pause_time == 0:
                  self.last_pause_time = time.time()
              ...
  \<close>
  \<open>t1\<close> and \<open>t2\<close> are the two readings of the clock, \<open>stop_ok\<close> says that
  \<open>sound.stop()\<close> returned.
\<close>

definition pause :: "player \<Rightarrow> pos_result \<Rightarrow> bool \<Rightarrow> real \<Rightarrow> real \<Rightarrow> player" where
  "pause p gp stop_ok t1 t2 =
     (if sound p = Some Play then
        (let p1 = (case gp of
                     Pos pos \<Rightarrow> p\<lparr>pause_position := pos\<rparr>
                   | PosNone \<Rightarrow> p
                   | PosRaised \<Rightarrow>
                       p\<lparr>pause_position := t1 - play_start_time p - total_paused_time p\<rparr>);
             p2 = (if stop_ok then p1\<lparr>sound := Some Stop\<rparr> else p1);
             p3 = p2\<lparr>pause_flag := True\<rparr>
         in if last_pause_time p3 = 0 then p3\<lparr>last_pause_time := t2\<rparr> else p3)
      else p)"

text \<open>
  \<^verbatim>\<open>
  def resume(self):
      if self.sound and self.pause_flag:
          try:
              if self.last_pause_time > 0:
                  self.total_paused_time += time.time() - self.last_pause_time
                  self.last_pause_time = 0
              self.sound.play()
              try:
                  if self.pause_position and hasattr(self.sound, "seek"):
                      self.sound.seek(self.pause_position)
                      self.pause_position = 0
              except Exception:
                  self.play_start_time = time.time() - (self.pause_position + self.total_paused_time)
                  self.pause_position = 0
              self.pause_flag = False
              ...
          except Exception as e:
              (log)
  \<close>
  \<open>t3\<close> and \<open>t4\<close> are the two readings of the clock, \<open>play_ok\<close> says that
  \<open>sound.play()\<close> returned.
\<close>

definition resume :: "player \<Rightarrow> bool \<Rightarrow> seek_result \<Rightarrow> real \<Rightarrow> real \<Rightarrow> player" where
  "resume p play_ok sk t3 t4 =
     (if sound p \<noteq> None \<and> pause_flag p then
        (let p1 = (if last_pause_time p > 0
                   then p\<lparr>total_paused_time := total_paused_time p + (t3 - last_pause_time p),
                          last_pause_time := 0\<rparr>
                   else p)
         in if \<not> play_ok then p1
            else
              (let p2 = p1\<lparr>sound := Some Play\<rparr>;
                   p3 = (if pause_position p2 \<noteq> 0 \<and> sk \<noteq> NoSeek then
                           (case sk of
                              SeekRaised \<Rightarrow>
                                p2\<lparr>play_start_time := t4 - (pause_position p2 + total_paused_time p2),
                                   pause_position := 0\<rparr>
                            | _ \<Rightarrow> p2\<lparr>pause_position := 0\<rparr>)
                         else p2)
               in p3\<lparr>pause_flag := False\<rparr>))
      else p)"

text \<open>
  The elapsed time that \<open>_progress_tick\<close> computes at time \<open>now\<close>:
  \<^verbatim>\<open>
  elapsed = time.time() - self.play_start_time - self.total_paused_time
  if self.pause_flag and self.last_pause_time > 0:
      elapsed = self.last_pause_time - self.play_start_time - self.total_paused_time
  \<close>
\<close>

definition elapsed :: "player \<Rightarrow> real \<Rightarrow> real" where
  "elapsed p now =
     (if pause_flag p \<and> last_pause_time p > 0
      then last_pause_time p - play_start_time p - total_paused_time p
      else now - play_start_time p - total_paused_time p)"

definition p_playing :: player where
  "p_playing = \<lparr> sound = Some Play, pause_flag = False, play_start_time = 100,
                 total_paused_time = 0, last_pause_time = 0, pause_position = 0 \<rparr>"

section \<open>Locating the downloaded file\<close>

definition partial_name :: "pystr \<Rightarrow> bool" where
  "partial_name f = (endswith f (lit ''.ytdl'') \<or> endswith f (lit ''.part''))"

definition size_positive :: "fs \<Rightarrow> pystr \<Rightarrow> bool" where
  "size_positive fs p = (case getsize fs p of Inr n \<Rightarrow> n > 0 | Inl e \<Rightarrow> False)"

text \<open>
  \<open>str.lower\<close> on the ASCII letters. The program lowers a path only to test whether it
  ends with \<open>".mp3"\<close>, and no other character becomes one of these four when lowered.
\<close>

definition py_lower :: "pystr \<Rightarrow> pystr" where
  "py_lower s = map (\<lambda>c. if 65 \<le> c \<and> c \<le> 90 then c + 32 else c) s"

text \<open>
  The batch driver, for each entry:
  \<^verbatim>\<open>
  candidates = []
  try:
      for f in os.listdir(temp_dir):
          fp = os.path.join(temp_dir, f)
          if not os.path.isfile(fp):
              continue
          if f.endswith('.ytdl') or f.endswith('.part'):
              continue
          if f.startswith("dl_"):
              candidates.append(fp)
  except Exception as e:
      continue
  candidates = sorted(candidates, key=lambda p: os.path.getmtime(p), reverse=True)
  downloaded = None
  for c in candidates:
      try:
          if os.path.exists(c) and os.path.getsize(c) > 0:
              downloaded = c
              break
      except Exception:
          continue
  \<close>
  \<open>sorted\<close> is stable, also with \<open>reverse=True\<close>: it is the stable sort on the
  negated time. Every candidate is a regular file, so its time can be read.
\<close>

definition mtime_of :: "fs \<Rightarrow> pystr \<Rightarrow> real" where
  "mtime_of fs p = (case getmtime fs p of Inr t \<Rightarrow> t | Inl e \<Rightarrow> 0)"

definition batch_candidate :: "fs \<Rightarrow> pystr \<Rightarrow> pystr \<Rightarrow> bool" where
  "batch_candidate fs temp_dir f =
     (isfile fs (join temp_dir f) \<and> \<not> partial_name f \<and> startswith f (lit ''dl_''))"

definition find_downloaded_batch :: "fs \<Rightarrow> pystr \<Rightarrow> oserror + pystr option" where
  "find_downloaded_batch fs temp_dir =
     (case listdir fs temp_dir of
        Inl e \<Rightarrow> Inl e
      | Inr names \<Rightarrow>
          (let candidates = map (join temp_dir) (filter (batch_candidate fs temp_dir) names);
               candidates = sort_key (\<lambda>p. - mtime_of fs p) candidates
           in Inr (find (\<lambda>c. path_exists fs c \<and> size_positive fs c) candidates)))"

text \<open>
  The stream driver, after the download:
  \<^verbatim>\<open>
  downloaded_path = None
  try:
      for f in os.listdir(self.temp_dir):
          if f.endswith('.ytdl') or f.endswith('.part'):
              continue
          if f.startswith(safe_title):
              fp = os.path.join(self.temp_dir, f)
              if os.path.isfile(fp) and os.path.getsize(fp) > 0:
                  downloaded_path = fp
                  if fp.lower().endswith(".mp3"):
                      break
  except Exception as e:
      (log)
  \<close>
\<close>

fun scan_stream :: "fs \<Rightarrow> pystr \<Rightarrow> pystr \<Rightarrow> pystr list \<Rightarrow> pystr option \<Rightarrow> pystr option" where
  "scan_stream fs temp_dir safe_title [] downloaded_path = downloaded_path"
| "scan_stream fs temp_dir safe_title (f # rest) downloaded_path =
     (if partial_name f then scan_stream fs temp_dir safe_title rest downloaded_path
      else if startswith f safe_title then
        (let fp = join temp_dir f in
         if isfile fs fp \<and> size_positive fs fp then
           (if endswith (py_lower fp) (lit ''.mp3'') then Some fp
            else scan_stream fs temp_dir safe_title rest (Some fp))
         else scan_stream fs temp_dir safe_title rest downloaded_path)
      else scan_stream fs temp_dir safe_title rest downloaded_path)"

definition find_downloaded_stream :: "fs \<Rightarrow> pystr \<Rightarrow> pystr \<Rightarrow> pystr option" where
  "find_downloaded_stream fs temp_dir safe_title =
     (case listdir fs temp_dir of
        Inl e \<Rightarrow> None
      | Inr names \<Rightarrow> scan_stream fs temp_dir safe_title names None)"

text \<open>
  What the stream driver's scan amounts to, in words: among the names that are not
  partial, start with the title and are non-empty regular files, the first whose path
  ends with \<open>.mp3\<close>; without one, the last in listing order.
\<close>

definition stream_candidate :: "fs \<Rightarrow> pystr \<Rightarrow> pystr \<Rightarrow> pystr \<Rightarrow> bool" where
  "stream_candidate fs temp_dir safe_title f =
     (\<not> partial_name f \<and> startswith f safe_title
      \<and> isfile fs (join temp_dir f) \<and> size_positive fs (join temp_dir f))"

definition stream_choice :: "fs \<Rightarrow> pystr \<Rightarrow> pystr \<Rightarrow> pystr list \<Rightarrow> pystr option" where
  "stream_choice fs temp_dir safe_title names =
     (let qs = filter (stream_candidate fs temp_dir safe_title) names in
      case find (\<lambda>f. endswith (py_lower (join temp_dir f)) (lit ''.mp3'')) qs of
        Some f \<Rightarrow> Some (join temp_dir f)
      | None \<Rightarrow> if qs = [] then None else Some (join temp_dir (last qs)))"

definition fs_two :: fs where
  "fs_two = [(tmp, Dir 4096 1),
             (join tmp (lit ''dl_x.mp3''), File [0x49, 0x44, 0x33, 0x04] 100),
             (join tmp (lit ''dl_x.webm''), File [0x1a, 0x45, 0xdf, 0xa3] 200),
             (join tmp (lit ''dl_x.webm.part''), File [0x1a] 300)]"

section \<open>Stream cache cleanup\<close>

text \<open>
  \<^verbatim>\<open>
  def cleanup_temp(self):
      try:
          for fname in os.listdir(self.temp_dir):
              fp = os.path.join(self.temp_dir, fname)
              try:
                  if self.current_file and os.path.abspath(fp) == os.path.abspath(self.current_file):
                      continue
                  os.remove(fp)
              except Exception:
                  pass
      except Exception:
          pass
  \<close>
  \<open>os.path.abspath\<close> depends on the working directory of the process: it is the
  parameter \<open>ab\<close>. \<open>current_file\<close> is None or a path; the empty path counts as
  false, as None does.
\<close>

fun cleanup_loop :: "(pystr \<Rightarrow> pystr) \<Rightarrow> pystr \<Rightarrow> pystr option \<Rightarrow> pystr list \<Rightarrow> fs \<Rightarrow> fs" where
  "cleanup_loop ab temp_dir current_file [] fs = fs"
| "cleanup_loop ab temp_dir current_file (fname # rest) fs =
     (let fp = join temp_dir fname in
      if (case current_file of None \<Rightarrow> False | Some cf \<Rightarrow> cf \<noteq> [] \<and> ab fp = ab cf)
      then cleanup_loop ab temp_dir current_file rest fs
      else (case os_remove fs fp of
              Inl e \<Rightarrow> cleanup_loop ab temp_dir current_file rest fs
            | Inr fs' \<Rightarrow> cleanup_loop ab temp_dir current_file rest fs'))"

definition cleanup_temp :: "(pystr \<Rightarrow> pystr) \<Rightarrow> pystr \<Rightarrow> pystr option \<Rightarrow> fs \<Rightarrow> fs" where
  "cleanup_temp ab temp_dir current_file fs =
     (case listdir fs temp_dir of
        Inl e \<Rightarrow> fs
      | Inr names \<Rightarrow> cleanup_loop ab temp_dir current_file names fs)"

section \<open>Paths and file operations of the drivers\<close>

definition slash :: nat where
  "slash = of_char CHR ''/''"

definition dot :: nat where
  "dot = of_char CHR ''.''"

definition basename :: "pystr \<Rightarrow> pystr" where
  "basename p = rev (takeWhile (\<lambda>c. c \<noteq> slash) (rev p))"

text \<open>\<open>os.path.dirname\<close>: up to the last slash, without trailing slashes unless it is the root.\<close>

definition dirname :: "pystr \<Rightarrow> pystr" where
  "dirname p =
     (let head = rev (dropWhile (\<lambda>c. c \<noteq> slash) (rev p));
          stripped = rev (dropWhile (\<lambda>c. c = slash) (rev head))
      in if stripped = [] then head else stripped)"

text \<open>
  \<open>os.path.splitext(p)[1]\<close>: from the last dot of the base name, if a character other
  than a dot comes before it; empty otherwise.
\<close>

definition splitext_ext :: "pystr \<Rightarrow> pystr" where
  "splitext_ext p =
     (let base = basename p;
          tail = rev (takeWhile (\<lambda>c. c \<noteq> dot) (rev base));
          stem = take (length base - length tail - 1) base
      in if dot \<in> set base \<and> (\<exists>c \<in> set stem. c \<noteq> dot) then dot # tail else [])"

text \<open>
  \<open>os.makedirs(d, exist_ok=True)\<close>, for the directory itself (the program lists no
  parent); \<open>fresh\<close> is the size and the time that the system gives a directory it
  creates. Writing a file needs its directory.
\<close>

definition makedirs :: "nat \<times> real \<Rightarrow> fs \<Rightarrow> pystr \<Rightarrow> oserror + fs" where
  "makedirs fresh fs d =
     (case map_of fs d of
        Some (Dir n t) \<Rightarrow> Inr fs
      | Some (File c t) \<Rightarrow> Inl OSError
      | None \<Rightarrow> Inr (fs @ [(d, Dir (fst fresh) (snd fresh))]))"

definition write_node :: "fs \<Rightarrow> pystr \<Rightarrow> node \<Rightarrow> oserror + fs" where
  "write_node fs p n =
     (if isdir fs (dirname p) then Inr (AList.update p n fs) else Inl OSError)"

text \<open>
  \<open>shutil.move(src, dst)\<close> and \<open>shutil.copy(src, dst)\<close> of a regular file. A
  destination that is a directory receives the file under its base name; \<open>move\<close> refuses
  to overwrite there, \<open>copy\<close> refuses to copy a file onto itself. A copy has the time
  of the copying.
\<close>

definition shutil_move :: "fs \<Rightarrow> pystr \<Rightarrow> pystr \<Rightarrow> oserror + fs" where
  "shutil_move fs src dst =
     (case map_of fs src of
        Some (File c t) \<Rightarrow>
          (if isdir fs dst then
             (if path_exists fs (join dst (basename src)) then Inl OSError
              else write_node (AList.delete src fs) (join dst (basename src)) (File c t))
           else write_node (AList.delete src fs) dst (File c t))
      | _ \<Rightarrow> Inl OSError)"

definition shutil_copy :: "real \<Rightarrow> fs \<Rightarrow> pystr \<Rightarrow> pystr \<Rightarrow> oserror + fs" where
  "shutil_copy now fs src dst =
     (case map_of fs src of
        Some (File c t) \<Rightarrow>
          (let real_dst = (if isdir fs dst then join dst (basename src) else dst)
           in if real_dst = src then Inl OSError
              else if isdir fs real_dst then Inl OSError
              else write_node fs real_dst (File c now))
      | _ \<Rightarrow> Inl OSError)"

section \<open>The environment of the drivers\<close>

text \<open>
  What \<open>extract_info\<close> returns: something that is not a dictionary, or a dictionary
  with or without a list under \<open>"entries"\<close> (a list may hold None for an entry that
  failed); the dictionary itself can be read as an entry.
\<close>

datatype info = InfoOther | InfoDict "entry option list option" entry

datatype fetch_result = FetchRaised | Fetched info

text \<open>
  The libraries, processes, directories and clock readings that the drivers use:
  \<^item> \<open>extract_info url\<close> is \<open>YoutubeDL.extract_info(url, download=True)\<close> of the batch
    driver, \<open>ydl_download url template\<close> is \<open>YoutubeDL.download([url])\<close> of the stream
    driver (True when it returns, False when it raises); both write what they like;
  \<^item> \<open>write_tags\<close> is the tag writing of mutagen inside \<open>embed_metadata\<close>;
  \<^item> \<open>temp_download\<close>, \<open>stream_cache\<close> and \<open>app_dir\<close> are the results of
    \<open>get_writable_directory\<close>; \<open>fresh_dir\<close> is the size and the time of a
    directory that the system creates;
  \<^item> \<open>time_stamp i\<close>, \<open>utc_stamp i\<close> and \<open>copy_time i\<close> are
    \<open>int(time.time())\<close> and \<open>datetime.utcnow().strftime("%Y%m%d%H%M%S")\<close> as text, and
    the time of a copy, while entry \<open>i\<close> is processed;
  \<^item> \<open>stop_at i\<close> is \<open>download_stop_flag\<close> as read at the start of iteration \<open>i\<close>
    (another thread sets it).
\<close>

record env =
  uni :: unicode
  has_ytdlp :: bool
  coder :: transcoder
  med :: media
  temp_download :: pystr
  stream_cache :: pystr
  app_dir :: pystr
  fresh_dir :: "nat \<times> real"
  extract_info :: "pystr \<Rightarrow> fs \<Rightarrow> fetch_result \<times> fs"
  ydl_download :: "pystr \<Rightarrow> pystr \<Rightarrow> fs \<Rightarrow> bool \<times> fs"
  write_tags :: "pystr \<Rightarrow> entry \<Rightarrow> fs \<Rightarrow> fs"
  time_stamp :: "nat \<Rightarrow> pystr"
  utc_stamp :: "nat \<Rightarrow> pystr"
  copy_time :: "nat \<Rightarrow> real"
  stop_at :: "nat \<Rightarrow> bool"

text \<open>
  \<open>embed_metadata\<close> never raises: it returns early without mutagen, without the file
  or when the file is not an MP3, and catches everything else.
\<close>

definition embed_metadata :: "env \<Rightarrow> pystr \<Rightarrow> entry \<Rightarrow> world \<Rightarrow> world" where
  "embed_metadata env file_path metadata w =
     (if \<not> has_mutagen (med env) then w
      else if \<not> path_exists (files w) file_path then w
      else if \<not> is_real_mp3 (files w) file_path then w
      else w\<lparr>files := write_tags env file_path metadata (files w)\<rparr>)"

section \<open>Batch download driver\<close>

text \<open>
  The end of an iteration, when no MP3 was produced:
  \<^verbatim>\<open>
  try:
      dest = final_orig
      if os.path.exists(dest):
          dest = os.path.join(APP_DIR, final_base + "_" + datetime.utcnow().strftime(...) + os.path.splitext(downloaded)[1])
      shutil.move(downloaded, dest)
      log_safe(self.ui.log, f"Saved original file (no mp3): {dest}")
      try:
          if HAS_MUTAGEN:
              if dest.lower().endswith(".mp3"):
                  embed_metadata(dest, entry, self.ui.log)
              else: (log)
      except Exception:
          pass
  except Exception as e:
      log_safe(self.ui.log, f"Failed to save downloaded file: {e}")
  \<close>
\<close>

definition save_original :: "env \<Rightarrow> nat \<Rightarrow> entry \<Rightarrow> pystr \<Rightarrow> pystr \<Rightarrow> world \<Rightarrow> world" where
  "save_original env i e downloaded final_base w =
     (let final_orig = join (app_dir env) (final_base @ splitext_ext downloaded);
          dest = (if path_exists (files w) final_orig
                  then join (app_dir env)
                         (final_base @ lit ''_'' @ utc_stamp env i @ splitext_ext downloaded)
                  else final_orig)
      in case shutil_move (files w) downloaded dest of
           Inl err \<Rightarrow> emit (Log FailedSave) w
         | Inr fs' \<Rightarrow>
             (let w1 = emit (Log (SavedOriginal dest)) (w\<lparr>files := fs'\<rparr>)
              in if has_mutagen (med env) then
                   (if endswith (py_lower dest) (lit ''.mp3'') then embed_metadata env dest e w1
                    else w1)
                 else w1))"

text \<open>
  One iteration of the loop of \<open>_download_audio\<close> (lines 533 to 657 of the source): find
  the downloaded file, check its size, build the final names and then
  \<^verbatim>\<open>
  if is_real_mp3(downloaded):
      try:
          shutil.move(downloaded, final_mp3)
          log_safe(self.ui.log, f"Saved MP3: {final_mp3}")
          embed_metadata(final_mp3, entry, self.ui.log)
      except Exception:
          try:
              shutil.copy(downloaded, final_mp3)
              log_safe(self.ui.log, f"Copied MP3: {final_mp3}")
              embed_metadata(final_mp3, entry, self.ui.log)
          except Exception as e:
              log_safe(self.ui.log, f"Failed to save MP3: {e}")
      continue
  converted = False
  target_mp3 = final_mp3
  if ffmpeg_exists():
      temp_mp3 = os.path.join(temp_dir, f"conv_{int(time.time())}.mp3")
      converted = convert_to_mp3_with_ffmpeg(downloaded, temp_mp3, ui_log=self.ui.log)
      if converted and os.path.exists(temp_mp3):
          try:
              shutil.move(temp_mp3, target_mp3)
              log_safe(self.ui.log, f"Converted & saved MP3: {target_mp3}")
              embed_metadata(target_mp3, entry, self.ui.log)
              try:
                  if os.path.exists(downloaded):
                      os.remove(downloaded)
              except Exception:
                  pass
              continue
          except Exception as e:
              (log)
  else: (log)
  (save the original file)
  \<close>
  The names are built before the signature test:
  \<^verbatim>\<open>
  title = sanitize_filename(entry.get('title', 'unknown'))
  uploader = sanitize_filename(entry.get('uploader', entry.get('uploader_id', 'unknown')))
  base_name = f"{uploader} - {title}"
  final_base = sanitize_filename(base_name)
  \<close>
  A key that is present with the value None makes \<open>sanitize_filename\<close> raise; the
  handler of the iteration logs the error and the loop goes on with the next entry.
\<close>

definition final_base_of :: "env \<Rightarrow> entry \<Rightarrow> pyerror + pystr" where
  "final_base_of env e =
     (case sanitize_value (uni env) (get_default (title e) (lit ''unknown'')) of
        Inl err \<Rightarrow> Inl err
      | Inr t \<Rightarrow>
         (case sanitize_value (uni env)
                 (case uploader e of
                    Absent \<Rightarrow> get_default (uploader_id e) (lit ''unknown'')
                  | PyNone \<Rightarrow> None
                  | Str x \<Rightarrow> Some x) of
            Inl err \<Rightarrow> Inl err
          | Inr upl \<Rightarrow> Inr (sanitize_filename (uni env) (upl @ lit '' - '' @ t))))"

definition batch_entry :: "env \<Rightarrow> nat \<Rightarrow> entry \<Rightarrow> world \<Rightarrow> world" where
  "batch_entry env i e w =
     (case find_downloaded_batch (files w) (temp_download env) of
        Inl err \<Rightarrow> w
      | Inr None \<Rightarrow> w
      | Inr (Some downloaded) \<Rightarrow>
         (case getsize (files w) downloaded of
            Inl err \<Rightarrow> w
          | Inr size_bytes \<Rightarrow>
             if size_bytes = 0 then w
             else
              (case final_base_of env e of
                 Inl err \<Rightarrow> emit (Log ErrorProcessingEntry) w
               | Inr final_base \<Rightarrow>
                  (let final_mp3 = join (app_dir env) (final_base @ lit ''.mp3'')
                   in if is_real_mp3 (files w) downloaded then
                        (case shutil_move (files w) downloaded final_mp3 of
                           Inr fs' \<Rightarrow>
                             embed_metadata env final_mp3 e
                               (emit (Log (SavedMP3 final_mp3)) (w\<lparr>files := fs'\<rparr>))
                         | Inl err \<Rightarrow>
                             (case shutil_copy (copy_time env i) (files w) downloaded final_mp3 of
                                Inr fs' \<Rightarrow>
                                  embed_metadata env final_mp3 e
                                    (emit (Log (CopiedMP3 final_mp3)) (w\<lparr>files := fs'\<rparr>))
                              | Inl err \<Rightarrow> emit (Log FailedSaveMP3) w))
                      else
                        (let (avail, w1) = ffmpeg_exists (coder env) w in
                         if avail then
                           (let temp_mp3 = join (temp_download env)
                                             (lit ''conv_'' @ time_stamp env i @ lit ''.mp3'');
                                (converted, w2) =
                                   convert_to_mp3_with_ffmpeg (coder env) downloaded temp_mp3 w1
                            in if converted \<and> path_exists (files w2) temp_mp3 then
                                 (case shutil_move (files w2) temp_mp3 final_mp3 of
                                    Inr fs' \<Rightarrow>
                                      (let w3 = embed_metadata env final_mp3 e
                                                  (emit (Log (ConvertedSavedMP3 final_mp3))
                                                     (w2\<lparr>files := fs'\<rparr>))
                                       in w3\<lparr>files := remove_quietly downloaded (files w3)\<rparr>)
                                  | Inl err \<Rightarrow> save_original env i e downloaded final_base w2)
                               else save_original env i e downloaded final_base w2)
                         else save_original env i e downloaded final_base w1)))))"

text \<open>
  \<^verbatim>\<open>
  for i, entry in enumerate(entries):
      if self.download_stop_flag:
          break
      try:
          (the iteration)
      except Exception as e:
          (log)
  \<close>
\<close>

fun batch_loop :: "env \<Rightarrow> nat \<Rightarrow> entry list \<Rightarrow> world \<Rightarrow> world" where
  "batch_loop env i [] w = w"
| "batch_loop env i (e # es) w =
     (if stop_at env i then w else batch_loop env (Suc i) es (batch_entry env i e w))"

text \<open>
  \<^verbatim>\<open>
  entries = []
  if isinstance(info, dict) and "entries" in info and info["entries"]:
      for e in info["entries"]:
          if e:
              entries.append(e)
  elif isinstance(info, dict):
      entries.append(info)
  \<close>
\<close>

fun batch_entries :: "info \<Rightarrow> entry list" where
  "batch_entries InfoOther = []"
| "batch_entries (InfoDict None self) = [self]"
| "batch_entries (InfoDict (Some es) self) =
     (if es \<noteq> []
      then List.map_filter (\<lambda>x. case x of None \<Rightarrow> None
                                       | Some e \<Rightarrow> if dict_nonempty e then Some e else None) es
      else [self])"

text \<open>
  \<^verbatim>\<open>
  # cleanup temp files
  try:
      for f in os.listdir(temp_dir):
          try:
              os.remove(os.path.join(temp_dir, f))
          except Exception:
              pass
  except Exception:
      pass
  \<close>
\<close>

fun purge_loop :: "pystr \<Rightarrow> pystr list \<Rightarrow> fs \<Rightarrow> fs" where
  "purge_loop temp_dir [] fs = fs"
| "purge_loop temp_dir (f # rest) fs =
     (case os_remove fs (join temp_dir f) of
        Inl err \<Rightarrow> purge_loop temp_dir rest fs
      | Inr fs' \<Rightarrow> purge_loop temp_dir rest fs')"

definition purge :: "pystr \<Rightarrow> fs \<Rightarrow> fs" where
  "purge temp_dir fs =
     (case listdir fs temp_dir of
        Inl err \<Rightarrow> fs
      | Inr names \<Rightarrow> purge_loop temp_dir names fs)"

text \<open>
  \<^verbatim>\<open>
  def _download_audio(self, url):
      if not HAS_YTDLP:
          return
      temp_dir = get_writable_directory("temp_download")
      os.makedirs(temp_dir, exist_ok=True)
      ...
      try:
          with yt_dlp.YoutubeDL(ydl_opts) as ydl:
              info = ydl.extract_info(url, download=True)
      except Exception as e:
          (log)
          return
      finally:
          (restore stdout and stderr)
      (gather entries)
      (the loop)
      (cleanup temp files)
  \<close>
  When \<open>os.makedirs\<close> raises, the exception leaves the function, and the caller
  \<open>_worker\<close> logs it.
\<close>

definition download_audio :: "env \<Rightarrow> pystr \<Rightarrow> world \<Rightarrow> world" where
  "download_audio env link w =
     (if \<not> has_ytdlp env then w
      else
        (case makedirs (fresh_dir env) (files w) (temp_download env) of
           Inl err \<Rightarrow> w
         | Inr fs0 \<Rightarrow>
            (case extract_info env link fs0 of
               (FetchRaised, fs1) \<Rightarrow> w\<lparr>files := fs1\<rparr>
             | (Fetched fetched, fs1) \<Rightarrow>
                 (let w1 = batch_loop env 0 (batch_entries fetched) (w\<lparr>files := fs1\<rparr>)
                  in w1\<lparr>files := purge (temp_download env) (files w1)\<rparr>))))"

section \<open>Stream driver: preparing an entry\<close>

text \<open>
  \<open>_prepare_for_stream\<close> (lines 755 to 893 of the source):
  \<^verbatim>\<open>
  if not HAS_YTDLP:
      return None
  url = entry.get("webpage_url") or entry.get("url")
  if not url:
      return None
  safe_title = sanitize_filename(entry.get("title", "stream_item"))
  out_template = os.path.join(self.temp_dir, f"{safe_title}.%(ext)s")
  try:
      with yt_dlp.YoutubeDL(ydl_opts) as ydl:
          ydl.download([url])
  except Exception as e:
      return None
  (find downloaded_path)
  if not downloaded_path:
      return None
  try:
      size = os.path.getsize(downloaded_path)
      if size == 0:
          return None
  except Exception as e:
      return None
  if is_real_mp3(downloaded_path):
      log_safe(self.ui.log, f"Stream ready (MP3): ...")
      return downloaded_path
  if ffmpeg_exists():
      temp_mp3 = os.path.join(self.temp_dir, f"{safe_title}_conv.mp3")
      converted = convert_to_mp3_with_ffmpeg(downloaded_path, temp_mp3, ui_log=self.ui.log)
      if converted and os.path.exists(temp_mp3):
          log_safe(self.ui.log, f"Stream ready (converted MP3): ...")
          return temp_mp3
      else: (log)
  else: (log)
  if os.path.exists(downloaded_path):
      log_safe(self.ui.log, f"Stream ready (original format): ...")
      return downloaded_path
  return None
  \<close>
\<close>

fun truthy :: "field \<Rightarrow> pystr option" where
  "truthy (Str x) = (if x \<noteq> [] then Some x else None)"
| "truthy Absent = None"
| "truthy PyNone = None"

definition url_of :: "entry \<Rightarrow> pystr option" where
  "url_of e = (case truthy (webpage_url e) of Some x \<Rightarrow> Some x | None \<Rightarrow> truthy (url e))"

definition safe_title_of :: "env \<Rightarrow> entry \<Rightarrow> pyerror + pystr" where
  "safe_title_of env e = sanitize_value (uni env) (get_default (title e) (lit ''stream_item''))"

definition use_original :: "pystr \<Rightarrow> world \<Rightarrow> pystr option \<times> world" where
  "use_original downloaded_path w =
     (if path_exists (files w) downloaded_path
      then (Some downloaded_path, emit (Log (StreamReadyOriginal downloaded_path)) w)
      else (None, w))"

text \<open>
  The result is \<open>Inl TypeError\<close> when \<open>sanitize_filename\<close> raises (nothing in
  \<open>_prepare_for_stream\<close> catches it), and otherwise \<open>Inr\<close> of what is returned.
\<close>

definition returned :: "pystr option \<times> world \<Rightarrow> (pyerror + pystr option) \<times> world" where
  "returned r = (Inr (fst r), snd r)"

definition prepare_for_stream :: "env \<Rightarrow> entry \<Rightarrow> world \<Rightarrow> (pyerror + pystr option) \<times> world" where
  "prepare_for_stream env e w =
     (if \<not> has_ytdlp env then (Inr None, w)
      else case url_of e of
        None \<Rightarrow> (Inr None, w)
      | Some link \<Rightarrow>
         (case safe_title_of env e of
            Inl err \<Rightarrow> (Inl err, w)
          | Inr safe_title \<Rightarrow>
             (let out_template = join (stream_cache env) (safe_title @ lit ''.%(ext)s'');
                  (done, fs1) = ydl_download env link out_template (files w);
                  w1 = w\<lparr>files := fs1\<rparr>
              in if \<not> done then (Inr None, w1)
                 else
                  (case find_downloaded_stream fs1 (stream_cache env) safe_title of
                     None \<Rightarrow> (Inr None, w1)
                   | Some downloaded_path \<Rightarrow>
                      (case getsize fs1 downloaded_path of
                         Inl err \<Rightarrow> (Inr None, w1)
                       | Inr size_bytes \<Rightarrow>
                          if size_bytes = 0 then (Inr None, w1)
                          else if is_real_mp3 fs1 downloaded_path
                          then (Inr (Some downloaded_path),
                                emit (Log (StreamReadyMP3 downloaded_path)) w1)
                          else
                            (let (avail, w2) = ffmpeg_exists (coder env) w1 in
                             if avail then
                               (let temp_mp3 = join (stream_cache env) (safe_title @ lit ''_conv.mp3'');
                                    (converted, w3) =
                                       convert_to_mp3_with_ffmpeg (coder env) downloaded_path temp_mp3 w2
                                in if converted \<and> path_exists (files w3) temp_mp3
                                   then (Inr (Some temp_mp3),
                                         emit (Log (StreamReadyConverted temp_mp3)) w3)
                                   else returned (use_original downloaded_path w3))
                             else returned (use_original downloaded_path w2)))))))"

text \<open>The calls of the transcoder that a trace records.\<close>

fun is_ffmpeg :: "event \<Rightarrow> bool" where
  "is_ffmpeg FfmpegProbe = True"
| "is_ffmpeg (FfmpegRun s t) = True"
| "is_ffmpeg (Log m) = False"

definition transcoder_calls :: "world \<Rightarrow> event list" where
  "transcoder_calls w = filter is_ffmpeg (trace w)"

section \<open>Stream driver: the queue\<close>

text \<open>
  \<^verbatim>\<open>
  def get_playlist_entries(url, ui_log=None):
      if not HAS_YTDLP:
          return []
      try:
          with yt_dlp.YoutubeDL(opts) as ydl:
              info = ydl.extract_info(url, download=False)
              if isinstance(info, dict):
                  if "entries" in info and info["entries"] is not None:
                      return list(info["entries"])
                  return [info]
              return []
      except Exception as e:
          return []
  \<close>
\<close>

fun get_playlist_entries :: "bool \<Rightarrow> fetch_result \<Rightarrow> entry option list" where
  "get_playlist_entries False r = []"
| "get_playlist_entries True FetchRaised = []"
| "get_playlist_entries True (Fetched InfoOther) = []"
| "get_playlist_entries True (Fetched (InfoDict (Some es) self)) = es"
| "get_playlist_entries True (Fetched (InfoDict None self)) = [Some self]"

text \<open>
  The fields of \<open>StreamPlayer\<close> that hold the queue, the calls that the driver schedules
  on the queue display of the UI, and, in \<open>rest\<close>, everything else that
  \<open>stream_playlist\<close> works on (the other fields, the file system, the sound, the other
  widgets). No statement of the loop body, of \<open>_prepare_for_stream\<close> or of \<open>play_song\<close>
  assigns \<open>self.queue\<close> or \<open>self.current_index\<close>, and none but line 735 calls the
  queue display; they work on \<open>rest\<close>:
  \<^item> \<open>restart\<close>: the flags are reset, \<open>played_files\<close> is cleared, \<open>cleanup_temp()\<close>;
  \<^item> \<open>prepare i entry\<close>: the progress calls and \<open>self._prepare_for_stream(entry)\<close>,
    which raises or returns None or a path;
  \<^item> \<open>prefetch i\<close>: the start of the background thread that prepares entry \<open>i + 1\<close>
    (True when \<open>start()\<close> returns);
  \<^item> \<open>play i entry filename\<close>: \<open>play_song\<close>, the deletion of the cached file and the
    log lines, with the handler of the loop for what raises there;
  \<^item> \<open>finish\<close>: the log line and \<open>cleanup_temp()\<close>;
  \<^item> \<open>stop_seen i\<close>: \<open>self.stop_flag\<close> as read at the start of iteration \<open>i\<close>
    (\<open>stop()\<close> sets it from another thread);
  \<^item> \<open>resolved url\<close>: what \<open>extract_info(url, download=False)\<close> does.
\<close>

datatype ui_call = UpdateQueueDisplay "entry option list" nat | ClearQueueDisplay

record 'r streamer =
  queue :: "entry option list"
  current_index :: nat
  ui :: "ui_call list"
  rest :: 'r

record 'r stream_ops =
  ytdlp :: bool
  resolved :: "pystr \<Rightarrow> fetch_result"
  restart :: "'r \<Rightarrow> 'r"
  stop_seen :: "nat \<Rightarrow> bool"
  prepare :: "nat \<Rightarrow> entry option \<Rightarrow> 'r \<Rightarrow> (pyerror + pystr option) \<times> 'r"
  prefetch :: "nat \<Rightarrow> 'r \<Rightarrow> bool \<times> 'r"
  play :: "nat \<Rightarrow> entry option \<Rightarrow> pystr \<Rightarrow> 'r \<Rightarrow> 'r"
  finish :: "'r \<Rightarrow> 'r"

text \<open>
  One iteration, after the test of the stop flag (\<open>n\<close> is \<open>len(entries)\<close>):
  \<^verbatim>\<open>
  self.current_index = i
  try:
      (progress calls)
      filename = self._prepare_for_stream(entry)
      (progress call)
      if not filename:
          (log)
          continue
      if i + 1 < len(entries):
          next_entry = entries[i + 1]
          self.next_thread = threading.Thread(target=self._prepare_for_stream, args=(next_entry,), daemon=True)
          self.next_thread.start()
      Clock.schedule_once(lambda dt, q=self.queue, idx=self.current_index: self.ui.update_queue_display(q, idx))
      success = self.play_song(filename, entry)
      (delete the cached file, log)
  except Exception as e:
      (log)
  \<close>
\<close>

definition stream_iteration ::
    "'r stream_ops \<Rightarrow> nat \<Rightarrow> nat \<Rightarrow> entry option \<Rightarrow> 'r streamer \<Rightarrow> 'r streamer" where
  "stream_iteration ops i n e sp =
     (let sp0 = sp\<lparr>current_index := i\<rparr>;
          (filename, r1) = prepare ops i e (rest sp0)
      in case filename of
           Inl err \<Rightarrow> sp0\<lparr>rest := r1\<rparr>
         | Inr None \<Rightarrow> sp0\<lparr>rest := r1\<rparr>
         | Inr (Some f) \<Rightarrow>
             if f = [] then sp0\<lparr>rest := r1\<rparr>
             else
               (let (started, r2) = (if i + 1 < n then prefetch ops i r1 else (True, r1))
                in if \<not> started then sp0\<lparr>rest := r2\<rparr>
                   else sp0\<lparr>ui := ui sp0 @ [UpdateQueueDisplay (queue sp0) (current_index sp0)],
                           rest := play ops i e f r2\<rparr>))"

text \<open>
  \<^verbatim>\<open>
  def stream_playlist(self, url):
      self.stop_flag = False
      self.pause_flag = False
      self.skip_flag = False
      self.current_index = 0
      self.played_files.clear()
      self.cleanup_temp()
      entries = get_playlist_entries(url, ui_log=self.ui.log)
      if not entries:
          return
      self.queue = entries
      for i, entry in enumerate(entries):
          if self.stop_flag:
              break
          (the iteration)
      if not self.stop_flag:
          (log)
      Clock.schedule_once(lambda dt: self.ui.clear_queue_display())
      self.cleanup_temp()
  \<close>
\<close>

fun stream_loop ::
    "'r stream_ops \<Rightarrow> nat \<Rightarrow> nat \<Rightarrow> entry option list \<Rightarrow> 'r streamer \<Rightarrow> 'r streamer" where
  "stream_loop ops i n [] sp = sp"
| "stream_loop ops i n (e # es) sp =
     (if stop_seen ops i then sp
      else stream_loop ops (Suc i) n es (stream_iteration ops i n e sp))"

definition stream_playlist :: "'r stream_ops \<Rightarrow> pystr \<Rightarrow> 'r streamer \<Rightarrow> 'r streamer" where
  "stream_playlist ops link sp =
     (let sp1 = sp\<lparr>current_index := 0, rest := restart ops (rest sp)\<rparr>;
          entries = get_playlist_entries (ytdlp ops) (resolved ops link)
      in if entries = [] then sp1
         else
           (let sp2 = stream_loop ops 0 (length entries) entries (sp1\<lparr>queue := entries\<rparr>)
            in sp2\<lparr>ui := ui sp2 @ [ClearQueueDisplay], rest := finish ops (rest sp2)\<rparr>))"

text \<open>Concrete environments for evaluating examples.\<close>

definition two_entries :: "entry option list" where
  "two_entries = [Some (no_entry\<lparr>title := Str (lit ''a'')\<rparr>), Some (no_entry\<lparr>title := Str (lit ''b'')\<rparr>)]"

definition ops_two :: "nat stream_ops" where
  "ops_two = \<lparr> ytdlp = True,
               resolved = (\<lambda>link. Fetched (InfoDict (Some two_entries) no_entry)),
               restart = (\<lambda>r. 0), stop_seen = (\<lambda>i. False),
               prepare = (\<lambda>i e r. (Inr (Some (lit ''/cache/a.mp3'')), r)),
               prefetch = (\<lambda>i r. (True, r)),
               play = (\<lambda>i e f r. Suc r), finish = (\<lambda>r. r) \<rparr>"

definition sp_idle :: "nat streamer" where
  "sp_idle = \<lparr> queue = [], current_index = 0, ui = [], rest = 0 \<rparr>"

definition lib :: pystr where "lib = lit ''/lib''"

definition id3_bytes :: "8 word list" where
  "id3_bytes = [0x49, 0x44, 0x33, 0x04, 0x00]"

definition e_song :: entry where
  "e_song = no_entry\<lparr>title := Str (lit ''song''), uploader := Str (lit ''band''),
                      url := Str (lit ''https://x/1'')\<rparr>"

definition e_no_uploader :: entry where
  "e_no_uploader = no_entry\<lparr>title := Str (lit ''song''), uploader := PyNone,
                             url := Str (lit ''https://x/1'')\<rparr>"

definition env_demo :: env where
  "env_demo = \<lparr> uni = ascii, has_ytdlp = True, coder = tc_fails, med = md_none,
               temp_download = tmp, stream_cache = tmp, app_dir = lib, fresh_dir = (4096, 1),
               extract_info = (\<lambda>link fs. (FetchRaised, put_file (join tmp (lit ''dl_a.webm.part'')) [0x1a] 5 fs)),
               ydl_download = (\<lambda>link tmpl fs. (True, put_file (join tmp (lit ''song.mp3'')) id3_bytes 5 fs)),
               write_tags = (\<lambda>p e fs. fs),
               time_stamp = (\<lambda>i. lit ''1700000000''), utc_stamp = (\<lambda>i. lit ''20231114221320''),
               copy_time = (\<lambda>i. 6), stop_at = (\<lambda>i. False) \<rparr>"

text \<open>The fetch returns one entry whose uploader is None and has written an MP3 file.\<close>

definition env_no_uploader :: env where
  "env_no_uploader =
     env_demo\<lparr>extract_info :=
                (\<lambda>link fs. (Fetched (InfoDict None e_no_uploader),
                             put_file (join tmp (lit ''dl_1.mp3'')) id3_bytes 5 fs))\<rparr>"

definition w_empty :: world where
  "w_empty = \<lparr> files = [(tmp, Dir 4096 1), (lib, Dir 4096 1)], trace = [] \<rparr>"

definition w_batch_mp3 :: world where
  "w_batch_mp3 = \<lparr> files = [(tmp, Dir 4096 1), (lib, Dir 4096 1),
                             (join tmp (lit ''dl_1.mp3''), File id3_bytes 5)],
                   trace = [] \<rparr>"

section \<open>Properties of sanitize_filename\<close>

lemma keep_underscore: "keep_char u underscore"
  by (simp add: keep_char_def lit_def underscore_def)

lemma strip_subset: "set (py_strip u s) \<subseteq> set s"
proof -
  have "set (dropWhile (isspace u) (rev (dropWhile (isspace u) s))) \<subseteq> set (rev (dropWhile (isspace u) s))"
    by (rule set_dropWhileD [THEN subsetI])
  also have "\<dots> \<subseteq> set s"
    using set_dropWhileD [of _ "isspace u" s] by auto
  finally show ?thesis by (simp add: py_strip_def)
qed

lemma dropWhile_head: "dropWhile P xs \<noteq> [] \<Longrightarrow> \<not> P (hd (dropWhile P xs))"
  using hd_dropWhile by blast

lemma strip_last: "py_strip u s \<noteq> [] \<Longrightarrow> \<not> isspace u (last (py_strip u s))"
  by (simp add: py_strip_def last_rev dropWhile_head)

lemma dropWhile_keeps_last:
  "xs \<noteq> [] \<Longrightarrow> \<not> P (last xs) \<Longrightarrow> dropWhile P xs \<noteq> [] \<and> last (dropWhile P xs) = last xs"
  by (induction xs) (auto split: if_splits)

lemma strip_hd: "py_strip u s \<noteq> [] \<Longrightarrow> \<not> isspace u (hd (py_strip u s))"
proof -
  assume ne: "py_strip u s \<noteq> []"
  let ?a = "dropWhile (isspace u) s"
  let ?b = "dropWhile (isspace u) (rev ?a)"
  from ne have b: "?b \<noteq> []" by (simp add: py_strip_def)
  then have a: "?a \<noteq> []" by (metis dropWhile.simps(1) rev.simps(1))
  have "hd (rev ?b) = last ?b" using b by (simp add: hd_rev)
  moreover have "last ?b = last (rev ?a)"
  proof -
    obtain k where k: "?b = drop k (rev ?a)"
      by (metis dropWhile_eq_drop)
    with b have "k < length (rev ?a)" by auto
    with k show ?thesis by simp
  qed
  moreover have "last (rev ?a) = hd ?a" using a by (simp add: last_rev)
  moreover have "\<not> isspace u (hd ?a)" using a by (rule dropWhile_head)
  ultimately show ?thesis by (simp add: py_strip_def)
qed

lemma strip_fixed:
  assumes "s \<noteq> [] \<longrightarrow> \<not> isspace u (hd s) \<and> \<not> isspace u (last s)"
  shows "py_strip u s = s"
proof (cases s)
  case Nil
  then show ?thesis by (simp add: py_strip_def)
next
  case (Cons c cs)
  with assms have h: "\<not> isspace u c" and l: "\<not> isspace u (last s)" by auto
  from Cons h have 1: "dropWhile (isspace u) s = s" by simp
  from l have "\<not> isspace u (hd (rev s))" by (simp add: hd_rev)
  moreover from Cons have "rev s \<noteq> []" by simp
  ultimately have 2: "dropWhile (isspace u) (rev s) = rev s"
    by (cases "rev s") auto
  show ?thesis by (simp add: py_strip_def 1 2)
qed

lemma strip_idem: "py_strip u (py_strip u s) = py_strip u s"
  by (rule strip_fixed) (simp add: strip_hd strip_last)

lemma sanitize_chars: "c \<in> set (sanitize_filename u s) \<Longrightarrow> keep_char u c"
proof -
  assume "c \<in> set (sanitize_filename u s)"
  then have "c \<in> set (map (\<lambda>c. if keep_char u c then c else underscore) s)"
    unfolding sanitize_filename_def using strip_subset by blast
  then show ?thesis by (auto simp: keep_underscore)
qed

lemma map_keep_fixed:
  "(\<forall>c \<in> set s. keep_char u c) \<Longrightarrow> map (\<lambda>c. if keep_char u c then c else underscore) s = s"
  by (induction s) auto

text \<open>
  C10. \<open>sanitize_filename\<close> is idempotent; every character of its result is
  alphanumeric or one of the characters of \<open>" ._-()"\<close> (the underscore that replaces a
  disallowed character is among them); and the result neither starts nor ends with
  white space.
\<close>

theorem sanitize_filename_idempotent:
  "sanitize_filename u (sanitize_filename u s) = sanitize_filename u s
   \<and> (\<forall>c \<in> set (sanitize_filename u s). isalnum u c \<or> c \<in> set (lit '' ._-()''))
   \<and> (sanitize_filename u s \<noteq> [] \<longrightarrow>
        \<not> isspace u (hd (sanitize_filename u s)) \<and> \<not> isspace u (last (sanitize_filename u s)))"
proof (intro conjI)
  have "map (\<lambda>c. if keep_char u c then c else underscore) (sanitize_filename u s)
        = sanitize_filename u s"
    by (rule map_keep_fixed) (simp add: sanitize_chars)
  then have "sanitize_filename u (sanitize_filename u s) = py_strip u (sanitize_filename u s)"
    by (simp add: sanitize_filename_def [of u "sanitize_filename u s"])
  also have "\<dots> = sanitize_filename u s"
    by (simp add: sanitize_filename_def [of u s] strip_idem)
  finally show "sanitize_filename u (sanitize_filename u s) = sanitize_filename u s" .
next
  show "\<forall>c \<in> set (sanitize_filename u s). isalnum u c \<or> c \<in> set (lit '' ._-()'')"
    using sanitize_chars [of _ u s] by (auto simp: keep_char_def)
next
  show "sanitize_filename u s \<noteq> [] \<longrightarrow>
        \<not> isspace u (hd (sanitize_filename u s)) \<and> \<not> isspace u (last (sanitize_filename u s))"
    by (simp add: sanitize_filename_def strip_hd strip_last)
qed

theorem sanitize_filename_idempotent_witness:
  "sanitize_filename ascii (lit ''  a/b: c?.mp3 '') = lit ''a_b_ c_.mp3''
   \<and> sanitize_filename ascii (lit ''a_b_ c_.mp3'') = lit ''a_b_ c_.mp3''"
proof -
  have 1: "sanitize_filename ascii (lit ''  a/b: c?.mp3 '') = lit ''a_b_ c_.mp3''"
    by (simp add: sanitize_filename_def py_strip_def keep_char_def ascii_def lit_def underscore_def)
  show ?thesis
    using sanitize_filename_idempotent [of ascii "lit ''  a/b: c?.mp3 ''"] unfolding 1 by simp
qed


section \<open>Properties of the conversion\<close>

lemma map_of_delete_self: "map_of (AList.delete p fs) p = None"
  by (simp add: delete_conv)

lemma remove_quietly_no_file: "\<not> isfile (remove_quietly p fs) p"
  by (auto simp: remove_quietly_def os_remove_def isfile_def path_exists_def map_of_delete_self
           split: option.splits node.splits)

lemma convert_result_cases:
  "convert_to_mp3_with_ffmpeg tc s t w =
     (if \<not> probe_ok (probe tc (probes w)) then (False, emit FfmpegProbe w)
      else case ffmpeg tc s t (files w) of
        (RunExit rc, fs2) \<Rightarrow>
          if rc = 0 \<and> path_exists fs2 t
          then (True, emit (FfmpegRun s t) ((emit FfmpegProbe w)\<lparr>files := fs2\<rparr>))
          else (False, (emit (FfmpegRun s t) ((emit FfmpegProbe w)\<lparr>files := fs2\<rparr>))
                         \<lparr>files := remove_quietly t fs2\<rparr>)
      | (RunRaised, fs2) \<Rightarrow>
          (False, (emit (FfmpegRun s t) ((emit FfmpegProbe w)\<lparr>files := fs2\<rparr>))
                    \<lparr>files := remove_quietly t fs2\<rparr>))"
  by (simp add: convert_to_mp3_with_ffmpeg_def ffmpeg_exists_def emit_def Let_def
           split: prod.splits run_result.splits)

text \<open>
  C4. When the transcoder is not available, \<open>convert_to_mp3_with_ffmpeg\<close> returns
  False and leaves the file system as it was, so it creates no file at the target path.
  When the conversion run raises (a timeout among others) or exits with a non-zero code,
  it returns False. And whenever it returns False after the transcoder was found, no
  regular file is at the target path afterwards.
\<close>

theorem convert_failure_leaves_no_target:
  "(\<not> probe_ok (probe tc (probes w)) \<longrightarrow>
      fst (convert_to_mp3_with_ffmpeg tc s t w) = False
      \<and> files (snd (convert_to_mp3_with_ffmpeg tc s t w)) = files w)
   \<and> (probe_ok (probe tc (probes w))
        \<and> (fst (ffmpeg tc s t (files w)) = RunRaised
             \<or> (\<exists>rc. rc \<noteq> 0 \<and> fst (ffmpeg tc s t (files w)) = RunExit rc)) \<longrightarrow>
      fst (convert_to_mp3_with_ffmpeg tc s t w) = False)
   \<and> (probe_ok (probe tc (probes w)) \<and> fst (convert_to_mp3_with_ffmpeg tc s t w) = False \<longrightarrow>
      \<not> isfile (files (snd (convert_to_mp3_with_ffmpeg tc s t w))) t)"
proof -
  have absent: "fst (convert_to_mp3_with_ffmpeg tc s t w) = False
             \<and> files (snd (convert_to_mp3_with_ffmpeg tc s t w)) = files w"
    if "\<not> probe_ok (probe tc (probes w))"
    using that by (simp add: convert_result_cases emit_def)
  have failed: "fst (convert_to_mp3_with_ffmpeg tc s t w) = False"
    if "probe_ok (probe tc (probes w))
          \<and> (fst (ffmpeg tc s t (files w)) = RunRaised
               \<or> (\<exists>rc. rc \<noteq> 0 \<and> fst (ffmpeg tc s t (files w)) = RunExit rc))"
    using that by (cases "ffmpeg tc s t (files w)") (auto simp: convert_result_cases)
  have gone: "\<not> isfile (files (snd (convert_to_mp3_with_ffmpeg tc s t w))) t"
    if a: "probe_ok (probe tc (probes w)) \<and> fst (convert_to_mp3_with_ffmpeg tc s t w) = False"
  proof -
    obtain res fs2 where r: "ffmpeg tc s t (files w) = (res, fs2)"
      by (cases "ffmpeg tc s t (files w)")
    from a have p: "probe_ok (probe tc (probes w))" by simp
    show ?thesis
    proof (cases res)
      case RunRaised
      with p r show ?thesis
        by (simp add: convert_result_cases remove_quietly_no_file)
    next
      case (RunExit rc)
      show ?thesis
      proof (cases "rc = 0 \<and> path_exists fs2 t")
        case True
        with p r RunExit have "fst (convert_to_mp3_with_ffmpeg tc s t w)"
          by (simp add: convert_result_cases)
        with a show ?thesis by simp
      next
        case False
        with p r RunExit show ?thesis
          by (auto simp: convert_result_cases remove_quietly_no_file)
      qed
    qed
  qed
  from absent failed gone show ?thesis by blast
qed

lemma convert_absent_eval:
  "convert_to_mp3_with_ffmpeg tc_absent (join tmp (lit ''a.webm'')) (join tmp (lit ''a.mp3'')) w_webm
   = (False, w_webm\<lparr>trace := [FfmpegProbe]\<rparr>)"
  by (simp add: convert_result_cases tc_absent_def probes_def w_webm_def emit_def)

lemma probe_fails_ok: "probe_ok (probe tc_fails (probes w_webm))"
  by (simp add: tc_fails_def)

lemma run_fails_exit: "fst (ffmpeg tc_fails s t fs) = RunExit 1"
  by (simp add: tc_fails_def)

theorem convert_failure_leaves_no_target_witness:
  "probe_ok (probe tc_fails (probes w_webm))
   \<and> fst (ffmpeg tc_fails (join tmp (lit ''a.webm'')) (join tmp (lit ''a.mp3'')) (files w_webm)) = RunExit 1
   \<and> isfile (snd (ffmpeg tc_fails (join tmp (lit ''a.webm'')) (join tmp (lit ''a.mp3'')) (files w_webm)))
        (join tmp (lit ''a.mp3''))
   \<and> fst (convert_to_mp3_with_ffmpeg tc_fails (join tmp (lit ''a.webm'')) (join tmp (lit ''a.mp3'')) w_webm) = False
   \<and> \<not> isfile (files (snd (convert_to_mp3_with_ffmpeg tc_fails (join tmp (lit ''a.webm''))
                              (join tmp (lit ''a.mp3'')) w_webm))) (join tmp (lit ''a.mp3''))
   \<and> \<not> probe_ok (probe tc_absent (probes w_webm))
   \<and> files (snd (convert_to_mp3_with_ffmpeg tc_absent (join tmp (lit ''a.webm''))
                   (join tmp (lit ''a.mp3'')) w_webm)) = files w_webm"
proof -
  have 1: "isfile (snd (ffmpeg tc_fails (join tmp (lit ''a.webm'')) (join tmp (lit ''a.mp3'')) (files w_webm)))
             (join tmp (lit ''a.mp3''))"
    by (simp add: tc_fails_def put_file_def isfile_def update_conv)
  have 2: "\<not> probe_ok (probe tc_absent (probes w_webm))"
    by (simp add: tc_absent_def)
  show ?thesis
    using convert_failure_leaves_no_target [of tc_fails w_webm "join tmp (lit ''a.webm'')" "join tmp (lit ''a.mp3'')"]
          convert_failure_leaves_no_target [of tc_absent w_webm "join tmp (lit ''a.webm'')" "join tmp (lit ''a.mp3'')"]
          probe_fails_ok run_fails_exit 1 2
    by simp
qed

text \<open>
  C5, as the code has it. Success is reported after checking that the conversion run
  exited with code 0 and that the target path exists; the size of the target is not
  looked at.
\<close>

theorem convert_success_target_exists:
  "fst (convert_to_mp3_with_ffmpeg tc s t w) \<Longrightarrow>
     fst (ffmpeg tc s t (files w)) = RunExit 0
     \<and> path_exists (files (snd (convert_to_mp3_with_ffmpeg tc s t w))) t"
proof -
  assume a: "fst (convert_to_mp3_with_ffmpeg tc s t w)"
  obtain res fs2 where r: "ffmpeg tc s t (files w) = (res, fs2)"
    by (cases "ffmpeg tc s t (files w)")
  from a have p: "probe_ok (probe tc (probes w))"
    by (simp add: convert_result_cases split: if_splits)
  show ?thesis
  proof (cases res)
    case RunRaised
    with a r p show ?thesis by (simp add: convert_result_cases)
  next
    case (RunExit rc)
    with a r p show ?thesis
      by (simp add: convert_result_cases emit_def split: if_splits)
  qed
qed

lemma convert_empty_eval:
  "convert_to_mp3_with_ffmpeg tc_empty (join tmp (lit ''a.webm'')) (join tmp (lit ''a.mp3'')) w_webm
   = (True, \<lparr> files = put_file (join tmp (lit ''a.mp3'')) [] 50 (files w_webm),
              trace = [FfmpegProbe, FfmpegRun (join tmp (lit ''a.webm'')) (join tmp (lit ''a.mp3''))] \<rparr>)"
  by (simp add: convert_result_cases tc_empty_def probes_def w_webm_def emit_def
                path_exists_def put_file_def update_conv)

theorem convert_success_target_exists_witness:
  "fst (convert_to_mp3_with_ffmpeg tc_empty (join tmp (lit ''a.webm'')) (join tmp (lit ''a.mp3'')) w_webm)
   \<and> path_exists (files (snd (convert_to_mp3_with_ffmpeg tc_empty (join tmp (lit ''a.webm''))
                                (join tmp (lit ''a.mp3'')) w_webm))) (join tmp (lit ''a.mp3''))"
proof -
  have 1: "fst (convert_to_mp3_with_ffmpeg tc_empty (join tmp (lit ''a.webm'')) (join tmp (lit ''a.mp3'')) w_webm)"
    by (simp add: convert_empty_eval)
  show ?thesis
    using convert_success_target_exists [OF 1] 1 by simp
qed

text \<open>
  The claim as stated fails: a conversion run that exits with code 0 and leaves an empty
  file at the target path is reported as a success.
\<close>

theorem convert_success_empty_target_counterexample:
  "fst (convert_to_mp3_with_ffmpeg tc_empty (join tmp (lit ''a.webm'')) (join tmp (lit ''a.mp3'')) w_webm)
   \<and> getsize (files (snd (convert_to_mp3_with_ffmpeg tc_empty (join tmp (lit ''a.webm''))
                            (join tmp (lit ''a.mp3'')) w_webm))) (join tmp (lit ''a.mp3'')) = Inr 0"
  by (simp add: convert_empty_eval getsize_def put_file_def update_conv)


section \<open>Properties of the duration resolver\<close>

lemma estimate_positive:
  "estimate_duration_from_size_bytes fs p 128 = Some est \<Longrightarrow> est \<noteq> 0"
  by (auto simp: estimate_duration_from_size_bytes_def split: sum.splits if_splits)






section \<open>Properties of pause and resume\<close>

text \<open>
  C1, as the code has it. A session is playing: the sound reports \<open>play\<close>, no pause is
  pending (\<open>last_pause_time = 0\<close>) and the clock is positive. After \<open>pause\<close> and a
  \<open>resume\<close> whose \<open>sound.play()\<close> returns:
  \<^item> if \<open>seek\<close> does not raise, or the captured position is zero, the elapsed time at
    any time \<open>t\<close> is the elapsed time at the pause plus the time since the resume,
    whatever the time spent in pause;
  \<^item> if \<open>seek\<close> raises on a captured position other than zero, \<open>play_start_time\<close> is
    rewritten and the elapsed time restarts from the captured position;
  \<^item> the captured position is the elapsed time at the pause when \<open>get_pos()\<close> raised,
    and the position that the sound reported when it returned one.
\<close>

theorem pause_resume_elapsed:
  assumes "sound p = Some Play" and "last_pause_time p = 0" and "\<not> pause_flag p" and "0 < t2"
  shows "(sk \<noteq> SeekRaised \<or> pause_position (pause p gp stop_ok t1 t2) = 0 \<longrightarrow>
            elapsed (resume (pause p gp stop_ok t1 t2) True sk t3 t4) t = elapsed p t2 + (t - t3))
         \<and> (sk = SeekRaised \<and> pause_position (pause p gp stop_ok t1 t2) \<noteq> 0 \<longrightarrow>
            elapsed (resume (pause p gp stop_ok t1 t2) True sk t3 t4) t
              = pause_position (pause p gp stop_ok t1 t2) + (t - t4))
         \<and> (gp = PosRaised \<longrightarrow> pause_position (pause p gp stop_ok t1 t2) = elapsed p t1)
         \<and> (\<forall>x. gp = Pos x \<longrightarrow> pause_position (pause p gp stop_ok t1 t2) = x)"
proof -
  let ?q = "pause p gp stop_ok t1 t2"
  have q: "sound ?q \<noteq> None" "pause_flag ?q" "last_pause_time ?q = t2"
          "play_start_time ?q = play_start_time p" "total_paused_time ?q = total_paused_time p"
    using assms by (auto simp: pause_def Let_def split: pos_result.splits)
  have e: "elapsed p t2 = t2 - play_start_time p - total_paused_time p"
          "elapsed p t1 = t1 - play_start_time p - total_paused_time p"
    using assms by (simp_all add: elapsed_def)
  have 1: "elapsed (resume ?q True sk t3 t4) t = elapsed p t2 + (t - t3)"
    if "sk \<noteq> SeekRaised \<or> pause_position ?q = 0"
    using that q assms by (cases sk) (auto simp: resume_def elapsed_def Let_def)
  have 2: "elapsed (resume ?q True sk t3 t4) t = pause_position ?q + (t - t4)"
    if "sk = SeekRaised \<and> pause_position ?q \<noteq> 0"
    using that q assms by (auto simp: resume_def elapsed_def Let_def)
  have 3: "pause_position ?q = elapsed p t1" if "gp = PosRaised"
    using that assms by (simp add: pause_def Let_def e)
  have 4: "pause_position ?q = x" if "gp = Pos x" for x
    using that assms by (simp add: pause_def Let_def)
  from 1 2 3 4 show ?thesis by blast
qed

theorem pause_resume_elapsed_witness:
  "elapsed p_playing 110 = 10
   \<and> elapsed (resume (pause p_playing PosRaised True 110 110) True SeekOk 115 115) 115 = 10
   \<and> elapsed (resume (pause p_playing PosRaised True 110 110) True SeekRaised 115 115) 115 = 10"
proof -
  have h: "sound p_playing = Some Play" "last_pause_time p_playing = 0" "\<not> pause_flag p_playing"
          "(0::real) < 110"
    by (simp_all add: p_playing_def)
  have e: "elapsed p_playing 110 = 10"
    by (simp add: elapsed_def p_playing_def)
  show ?thesis
    using pause_resume_elapsed [OF h, of SeekOk PosRaised True 110 115 115 115]
          pause_resume_elapsed [OF h, of SeekRaised PosRaised True 110 115 115 115] e
    by simp
qed

text \<open>
  The claim as stated fails: the sound reports position 7 when the pause happens at
  elapsed time 10, and \<open>seek\<close> raises at the resume 5 seconds later. The next tick
  reports 7 seconds, 3 seconds away from the elapsed time at the pause.
\<close>

theorem pause_resume_elapsed_counterexample:
  "elapsed p_playing 110 = 10
   \<and> elapsed (resume (pause p_playing (Pos 7) True 110 110) True SeekRaised 115 115) 115 = 7
   \<and> \<not> \<bar>elapsed (resume (pause p_playing (Pos 7) True 110 110) True SeekRaised 115 115) 115
          - elapsed p_playing 110\<bar> \<le> 0.5"
  by (simp add: elapsed_def resume_def pause_def p_playing_def Let_def)


section \<open>Properties of the stream cache cleanup\<close>

lemma os_remove_other:
  "os_remove fs fp = Inr fs' \<Longrightarrow> p \<noteq> fp \<Longrightarrow> map_of fs' p = map_of fs p"
  by (auto simp: os_remove_def delete_conv split: if_splits)

lemma cleanup_loop_keeps:
  "cf \<noteq> [] \<Longrightarrow> ab p = ab cf \<Longrightarrow>
     map_of (cleanup_loop ab d (Some cf) names fs) p = map_of fs p"
proof (induction names arbitrary: fs)
  case Nil
  then show ?case by simp
next
  case (Cons fname rest)
  show ?case
  proof (cases "ab (join d fname) = ab cf")
    case True
    with Cons show ?thesis by simp
  next
    case False
    with Cons.prems have ne: "p \<noteq> join d fname" by auto
    show ?thesis
    proof (cases "os_remove fs (join d fname)")
      case (Inl e)
      with False Cons show ?thesis by simp
    next
      case (Inr fs')
      with False Cons have "map_of (cleanup_loop ab d (Some cf) (fname # rest) fs) p = map_of fs' p"
        by simp
      also have "\<dots> = map_of fs p" using Inr ne by (rule os_remove_other)
      finally show ?thesis .
    qed
  qed
qed

lemma cleanup_temp_keeps:
  "cf \<noteq> [] \<Longrightarrow> ab p = ab cf \<Longrightarrow> map_of (cleanup_temp ab d (Some cf) fs) p = map_of fs p"
  by (simp add: cleanup_temp_def cleanup_loop_keeps split: sum.splits)

text \<open>
  C9. While a session has a current file, every path that \<open>cleanup_temp\<close> removes has
  an absolute path other than that of the current file; the current file itself is
  left as it was.
\<close>

theorem cleanup_temp_spares_current_file:
  assumes "current_file = Some cf" and "cf \<noteq> []"
  shows "(\<forall>p. path_exists fs p \<and> \<not> path_exists (cleanup_temp ab d current_file fs) p
              \<longrightarrow> ab p \<noteq> ab cf)
         \<and> map_of (cleanup_temp ab d current_file fs) cf = map_of fs cf"
  using assms by (auto simp: path_exists_def cleanup_temp_keeps)

theorem cleanup_temp_spares_current_file_witness:
  "path_exists fs_two (join tmp (lit ''dl_x.webm''))
   \<and> \<not> path_exists (cleanup_temp id tmp (Some (join tmp (lit ''dl_x.mp3''))) fs_two)
         (join tmp (lit ''dl_x.webm''))
   \<and> join tmp (lit ''dl_x.webm'') \<noteq> join tmp (lit ''dl_x.mp3'')
   \<and> map_of (cleanup_temp id tmp (Some (join tmp (lit ''dl_x.mp3''))) fs_two) (join tmp (lit ''dl_x.mp3''))
       = Some (File [0x49, 0x44, 0x33, 0x04] 100)"
proof -
  have ne: "join tmp (lit ''dl_x.mp3'') \<noteq> []" by (simp add: join_def lit_def)
  have ex: "path_exists fs_two (join tmp (lit ''dl_x.webm''))"
    by (simp add: path_exists_def fs_two_def join_def lit_def tmp_def)
  have gone: "\<not> path_exists (cleanup_temp id tmp (Some (join tmp (lit ''dl_x.mp3''))) fs_two)
                 (join tmp (lit ''dl_x.webm''))"
    by (simp add: path_exists_def cleanup_temp_def listdir_def isdir_def child_def startswith_def
                  os_remove_def isfile_def fs_two_def join_def lit_def tmp_def delete_conv)
  have cur: "map_of fs_two (join tmp (lit ''dl_x.mp3'')) = Some (File [0x49, 0x44, 0x33, 0x04] 100)"
    by (simp add: fs_two_def join_def lit_def tmp_def)
  show ?thesis
    using cleanup_temp_spares_current_file [OF refl ne, of fs_two id tmp] ex gone cur
    by auto
qed


section \<open>Properties of locating the downloaded file\<close>

lemma find_sorted_least:
  "sorted (map k xs) \<Longrightarrow> find P xs = Some x \<Longrightarrow> y \<in> set xs \<Longrightarrow> P y \<Longrightarrow> k x \<le> k y"
proof (induction xs)
  case Nil
  then show ?case by simp
next
  case (Cons a as)
  show ?case
  proof (cases "P a")
    case True
    with Cons.prems have "x = a" by simp
    with Cons.prems show ?thesis by auto
  next
    case False
    with Cons.prems have "find P as = Some x" "y \<in> set as" "sorted (map k as)" by auto
    then show ?thesis using Cons.IH Cons.prems(4) by blast
  qed
qed

lemma find_in_set: "find P xs = Some x \<Longrightarrow> x \<in> set xs \<and> P x"
  by (induction xs) (auto split: if_splits)

lemma find_none: "find P xs = None \<Longrightarrow> x \<in> set xs \<Longrightarrow> \<not> P x"
  by (induction xs) (auto split: if_splits)

lemma batch_selected:
  assumes "listdir fs d = Inr names" and "find_downloaded_batch fs d = Inr (Some c)"
  shows "\<exists>f \<in> set names. c = join d f \<and> batch_candidate fs d f \<and> size_positive fs c"
    and "f' \<in> set names \<Longrightarrow> batch_candidate fs d f' \<Longrightarrow> size_positive fs (join d f')
           \<Longrightarrow> mtime_of fs (join d f') \<le> mtime_of fs c"
proof -
  let ?cs = "map (join d) (filter (batch_candidate fs d) names)"
  let ?P = "\<lambda>c. path_exists fs c \<and> size_positive fs c"
  from assms have f: "find ?P (sort_key (\<lambda>p. - mtime_of fs p) ?cs) = Some c"
    by (simp add: find_downloaded_batch_def)
  then have c: "c \<in> set ?cs" "size_positive fs c"
    using find_in_set [OF f] by auto
  then show "\<exists>f \<in> set names. c = join d f \<and> batch_candidate fs d f \<and> size_positive fs c"
    by auto
  assume a: "f' \<in> set names" "batch_candidate fs d f'" "size_positive fs (join d f')"
  then have "isfile fs (join d f')" by (simp add: batch_candidate_def)
  then have ex: "path_exists fs (join d f')"
    by (auto simp: isfile_def path_exists_def split: option.splits)
  from a have m: "join d f' \<in> set (sort_key (\<lambda>p. - mtime_of fs p) ?cs)" by simp
  have "sorted (map (\<lambda>p. - mtime_of fs p) (sort_key (\<lambda>p. - mtime_of fs p) ?cs))"
    by (rule sorted_sort_key)
  from find_sorted_least [OF this f m] ex a(3)
  show "mtime_of fs (join d f') \<le> mtime_of fs c" by simp
qed

lemma batch_none:
  assumes "listdir fs d = Inr names" and "find_downloaded_batch fs d = Inr None"
    and "f \<in> set names" and "batch_candidate fs d f"
  shows "\<not> size_positive fs (join d f)"
proof
  assume sp: "size_positive fs (join d f)"
  let ?cs = "map (join d) (filter (batch_candidate fs d) names)"
  let ?P = "\<lambda>c. path_exists fs c \<and> size_positive fs c"
  from assms have n: "find ?P (sort_key (\<lambda>p. - mtime_of fs p) ?cs) = None"
    by (simp add: find_downloaded_batch_def)
  from assms have m: "join d f \<in> set (sort_key (\<lambda>p. - mtime_of fs p) ?cs)" by simp
  from assms(4) have "path_exists fs (join d f)"
    by (auto simp: batch_candidate_def isfile_def path_exists_def split: option.splits)
  with find_none [OF n m] sp show False by simp
qed

lemma scan_stream_choice:
  "scan_stream fs d st names acc =
     (let qs = filter (stream_candidate fs d st) names in
      case find (\<lambda>f. endswith (py_lower (join d f)) (lit ''.mp3'')) qs of
        Some f \<Rightarrow> Some (join d f)
      | None \<Rightarrow> if qs = [] then acc else Some (join d (last qs)))"
proof (induction names arbitrary: acc)
  case Nil
  then show ?case by simp
next
  case (Cons f rest)
  show ?case
  proof (cases "stream_candidate fs d st f")
    case False
    then show ?thesis
      using Cons.IH [of acc] by (auto simp: stream_candidate_def Let_def)
  next
    case True
    show ?thesis
    proof (cases "endswith (py_lower (join d f)) (lit ''.mp3'')")
      case mp3: True
      with True show ?thesis by (simp add: stream_candidate_def Let_def)
    next
      case other: False
      with True show ?thesis
        using Cons.IH [of "Some (join d f)"]
        by (auto simp: stream_candidate_def Let_def split: option.splits)
    qed
  qed
qed

text \<open>
  C6, as the code has it. The batch driver takes, among the regular files of the
  temporary directory whose names start with \<open>dl_\<close> and do not end with \<open>.ytdl\<close> or
  \<open>.part\<close>, a non-empty one with the latest modification time, and none only if there
  is no such non-empty file. The stream driver does not look at modification times: among
  the non-empty regular files whose names start with the sanitized title and do not end
  with \<open>.ytdl\<close> or \<open>.part\<close>, it takes the first in listing order whose path ends with
  \<open>.mp3\<close>, and without one the last in listing order. Neither driver tests that a file
  is newly written.
\<close>

theorem download_candidate_selection:
  assumes "listdir fs d = Inr names"
  shows "(\<forall>c. find_downloaded_batch fs d = Inr (Some c) \<longrightarrow>
            (\<exists>f \<in> set names. c = join d f \<and> isfile fs c \<and> \<not> partial_name f
                 \<and> startswith f (lit ''dl_'') \<and> size_positive fs c)
            \<and> (\<forall>f' \<in> set names. isfile fs (join d f') \<and> \<not> partial_name f'
                   \<and> startswith f' (lit ''dl_'') \<and> size_positive fs (join d f')
                   \<longrightarrow> mtime_of fs (join d f') \<le> mtime_of fs c))
         \<and> (find_downloaded_batch fs d = Inr None \<longrightarrow>
              (\<forall>f \<in> set names. isfile fs (join d f) \<and> \<not> partial_name f
                   \<and> startswith f (lit ''dl_'') \<longrightarrow> \<not> size_positive fs (join d f)))
         \<and> find_downloaded_stream fs d st = stream_choice fs d st names"
proof (intro conjI allI)
  fix c
  show "find_downloaded_batch fs d = Inr (Some c) \<longrightarrow>
            (\<exists>f \<in> set names. c = join d f \<and> isfile fs c \<and> \<not> partial_name f
                 \<and> startswith f (lit ''dl_'') \<and> size_positive fs c)
            \<and> (\<forall>f' \<in> set names. isfile fs (join d f') \<and> \<not> partial_name f'
                   \<and> startswith f' (lit ''dl_'') \<and> size_positive fs (join d f')
                   \<longrightarrow> mtime_of fs (join d f') \<le> mtime_of fs c)"
    using batch_selected [OF assms, of c] by (auto simp: batch_candidate_def)
next
  show "find_downloaded_batch fs d = Inr None \<longrightarrow>
              (\<forall>f \<in> set names. isfile fs (join d f) \<and> \<not> partial_name f
                   \<and> startswith f (lit ''dl_'') \<longrightarrow> \<not> size_positive fs (join d f))"
    using batch_none [OF assms] by (auto simp: batch_candidate_def)
next
  show "find_downloaded_stream fs d st = stream_choice fs d st names"
    using assms by (simp add: find_downloaded_stream_def stream_choice_def scan_stream_choice)
qed

lemma listdir_two:
  "listdir fs_two tmp = Inr [lit ''dl_x.mp3'', lit ''dl_x.webm'', lit ''dl_x.webm.part'']"
  by code_simp

lemma batch_two: "find_downloaded_batch fs_two tmp = Inr (Some (join tmp (lit ''dl_x.webm'')))"
  by code_simp

lemma stream_two:
  "find_downloaded_stream fs_two tmp (lit ''dl_x'') = Some (join tmp (lit ''dl_x.mp3''))"
  by code_simp

theorem download_candidate_selection_witness:
  "listdir fs_two tmp = Inr [lit ''dl_x.mp3'', lit ''dl_x.webm'', lit ''dl_x.webm.part'']
   \<and> find_downloaded_batch fs_two tmp = Inr (Some (join tmp (lit ''dl_x.webm'')))
   \<and> mtime_of fs_two (join tmp (lit ''dl_x.mp3'')) \<le> mtime_of fs_two (join tmp (lit ''dl_x.webm''))
   \<and> stream_choice fs_two tmp (lit ''dl_x'') [lit ''dl_x.mp3'', lit ''dl_x.webm'', lit ''dl_x.webm.part'']
       = Some (join tmp (lit ''dl_x.mp3''))"
proof -
  have m: "mtime_of fs_two (join tmp (lit ''dl_x.mp3'')) \<le> mtime_of fs_two (join tmp (lit ''dl_x.webm''))"
    by code_simp
  show ?thesis
    using download_candidate_selection [OF listdir_two, of "lit ''dl_x''"]
          listdir_two batch_two stream_two m
    by simp
qed

text \<open>
  The claim as stated fails: on the same directory, with the title \<open>dl_x\<close>, the batch
  driver takes the newest file and the stream driver takes the older \<open>.mp3\<close>.
\<close>

theorem download_candidate_selection_counterexample:
  "find_downloaded_batch fs_two tmp = Inr (Some (join tmp (lit ''dl_x.webm'')))
   \<and> find_downloaded_stream fs_two tmp (lit ''dl_x'') = Some (join tmp (lit ''dl_x.mp3''))
   \<and> mtime_of fs_two (join tmp (lit ''dl_x.mp3'')) < mtime_of fs_two (join tmp (lit ''dl_x.webm''))
   \<and> join tmp (lit ''dl_x.mp3'') \<noteq> join tmp (lit ''dl_x.webm'')"
  by code_simp


section \<open>Properties of the drivers on a file that is already an MP3\<close>

lemma is_real_mp3_size: "is_real_mp3 fs p \<Longrightarrow> \<exists>n. getsize fs p = Inr n \<and> n \<noteq> 0"
  by (auto simp: is_real_mp3_def getsize_def Let_def split: option.splits node.splits if_splits)

lemma transcoder_calls_emit_log: "transcoder_calls (emit (Log m) w) = transcoder_calls w"
  by (simp add: transcoder_calls_def emit_def)

lemma transcoder_calls_files: "transcoder_calls (w\<lparr>files := fs\<rparr>) = transcoder_calls w"
  by (simp add: transcoder_calls_def)

lemma trace_embed: "trace (embed_metadata env p e w) = trace w"
  by (simp add: embed_metadata_def)

lemma transcoder_calls_embed: "transcoder_calls (embed_metadata env p e w) = transcoder_calls w"
  by (simp add: transcoder_calls_def trace_embed)

text \<open>
  The stream driver on a located file that passes the signature test: it returns that
  path, logs it as an MP3, leaves the file system as the download left it and starts no
  ffmpeg process.
\<close>

lemma prepare_mp3:
  assumes "has_ytdlp env" and "url_of e = Some link" and "safe_title_of env e = Inr st"
    and "ydl_download env link (join (stream_cache env) (st @ lit ''.%(ext)s'')) (files w)
           = (True, fs1)"
    and "find_downloaded_stream fs1 (stream_cache env) st = Some dp"
    and "is_real_mp3 fs1 dp"
  shows "prepare_for_stream env e w
           = (Inr (Some dp), emit (Log (StreamReadyMP3 dp)) (w\<lparr>files := fs1\<rparr>))"
    and "transcoder_calls (snd (prepare_for_stream env e w)) = transcoder_calls w"
proof -
  from is_real_mp3_size [OF assms(6)] obtain n where n: "getsize fs1 dp = Inr n" "n \<noteq> 0"
    by blast
  show 1: "prepare_for_stream env e w
           = (Inr (Some dp), emit (Log (StreamReadyMP3 dp)) (w\<lparr>files := fs1\<rparr>))"
    using assms n by (simp add: prepare_for_stream_def Let_def)
  show "transcoder_calls (snd (prepare_for_stream env e w)) = transcoder_calls w"
    by (simp add: 1 transcoder_calls_emit_log transcoder_calls_files)
qed

text \<open>
  The batch driver on a located file that passes the signature test, when the names can
  be built: it starts no ffmpeg process and logs one of the three outcomes of saving
  under the \<open>.mp3\<close> name.
\<close>

lemma batch_mp3:
  assumes "find_downloaded_batch (files w) (temp_download env) = Inr (Some dl)"
    and "is_real_mp3 (files w) dl"
    and "final_base_of env e = Inr fb"
  shows "batch_entry env i e w =
           (case shutil_move (files w) dl (join (app_dir env) (fb @ lit ''.mp3'')) of
              Inr fs' \<Rightarrow>
                embed_metadata env (join (app_dir env) (fb @ lit ''.mp3'')) e
                  (emit (Log (SavedMP3 (join (app_dir env) (fb @ lit ''.mp3''))))
                     (w\<lparr>files := fs'\<rparr>))
            | Inl err \<Rightarrow>
                (case shutil_copy (copy_time env i) (files w) dl
                        (join (app_dir env) (fb @ lit ''.mp3'')) of
                   Inr fs' \<Rightarrow>
                     embed_metadata env (join (app_dir env) (fb @ lit ''.mp3'')) e
                       (emit (Log (CopiedMP3 (join (app_dir env) (fb @ lit ''.mp3''))))
                          (w\<lparr>files := fs'\<rparr>))
                 | Inl err \<Rightarrow> emit (Log FailedSaveMP3) w))"
proof -
  from is_real_mp3_size [OF assms(2)] obtain n where n: "getsize (files w) dl = Inr n" "n \<noteq> 0"
    by blast
  show ?thesis
    using assms n by (simp add: batch_entry_def Let_def)
qed

lemma batch_mp3_no_transcoder:
  assumes "find_downloaded_batch (files w) (temp_download env) = Inr (Some dl)"
    and "is_real_mp3 (files w) dl"
    and "final_base_of env e = Inr fb"
  shows "transcoder_calls (batch_entry env i e w) = transcoder_calls w"
    and "\<exists>m \<in> {SavedMP3 (join (app_dir env) (fb @ lit ''.mp3'')),
               CopiedMP3 (join (app_dir env) (fb @ lit ''.mp3'')), FailedSaveMP3}.
           trace (batch_entry env i e w) = trace w @ [Log m]"
proof -
  note b = batch_mp3 [OF assms, of i]
  show "transcoder_calls (batch_entry env i e w) = transcoder_calls w"
    unfolding b
    by (simp add: transcoder_calls_embed transcoder_calls_emit_log transcoder_calls_files
             split: sum.splits)
  show "\<exists>m \<in> {SavedMP3 (join (app_dir env) (fb @ lit ''.mp3'')),
               CopiedMP3 (join (app_dir env) (fb @ lit ''.mp3'')), FailedSaveMP3}.
           trace (batch_entry env i e w) = trace w @ [Log m]"
    unfolding b by (simp add: trace_embed emit_def split: sum.splits)
qed

lemma batch_none_raises:
  assumes "find_downloaded_batch (files w) (temp_download env) = Inr (Some dl)"
    and "is_real_mp3 (files w) dl"
    and "title e = PyNone \<or> uploader e = PyNone \<or> (uploader e = Absent \<and> uploader_id e = PyNone)"
  shows "batch_entry env i e w = emit (Log ErrorProcessingEntry) w"
proof -
  from is_real_mp3_size [OF assms(2)] obtain n where n: "getsize (files w) dl = Inr n" "n \<noteq> 0"
    by blast
  from assms(3) have "final_base_of env e = Inl TypeError"
    by (cases "title e"; cases "uploader e"; cases "uploader_id e")
       (auto simp: final_base_of_def)
  with assms n show ?thesis by (simp add: batch_entry_def)
qed

text \<open>
  C2 fails on the code in the batch driver when a key of the entry is present with the
  value None. Here the fetch has written an MP3 file (it starts with \<open>ID3\<close>) and
  returns an entry whose \<open>uploader\<close> is None. The iteration finds the file, which
  passes the signature test, but \<open>sanitize_filename\<close> raises while the names are built,
  before the test: the handler logs the error, the file is not saved under any name, and
  the cleanup at the end of the run deletes it.
\<close>

theorem batch_none_uploader_loses_mp3:
  "find_downloaded_batch (files w_batch_mp3) (temp_download env_demo)
     = Inr (Some (join tmp (lit ''dl_1.mp3'')))
   \<and> is_real_mp3 (files w_batch_mp3) (join tmp (lit ''dl_1.mp3''))
   \<and> batch_entry env_demo 0 e_no_uploader w_batch_mp3 = emit (Log ErrorProcessingEntry) w_batch_mp3
   \<and> download_audio env_no_uploader (lit ''https://x/1'') w_empty
       = \<lparr> files = [(tmp, Dir 4096 1), (lib, Dir 4096 1)], trace = [Log ErrorProcessingEntry] \<rparr>"
  by code_simp

section \<open>Properties of the batch run\<close>

lemma os_remove_isfile_mono: "os_remove fs q = Inr fs' \<Longrightarrow> isfile fs' p \<Longrightarrow> isfile fs p"
  by (auto simp: os_remove_def isfile_def delete_conv split: if_splits option.splits)

lemma os_remove_gone: "os_remove fs q = Inr fs' \<Longrightarrow> \<not> isfile fs' q"
  by (auto simp: os_remove_def isfile_def delete_conv split: if_splits)

lemma os_remove_fails: "os_remove fs q = Inl err \<Longrightarrow> \<not> isfile fs q"
  by (auto simp: os_remove_def split: if_splits)

lemma purge_loop_mono: "isfile (purge_loop d names fs) p \<Longrightarrow> isfile fs p"
proof (induction names arbitrary: fs)
  case Nil
  then show ?case by simp
next
  case (Cons f rest)
  show ?case
  proof (cases "os_remove fs (join d f)")
    case (Inl err)
    with Cons show ?thesis by simp
  next
    case (Inr fs')
    with Cons have "isfile fs' p" by simp
    with Inr show ?thesis by (rule os_remove_isfile_mono)
  qed
qed

lemma purge_loop_removes: "f \<in> set names \<Longrightarrow> \<not> isfile (purge_loop d names fs) (join d f)"
proof (induction names arbitrary: fs)
  case Nil
  then show ?case by simp
next
  case (Cons a rest)
  show ?case
  proof (cases "os_remove fs (join d a)")
    case (Inl err)
    show ?thesis
    proof (cases "f = a")
      case True
      with Inl os_remove_fails [OF Inl] show ?thesis
        using purge_loop_mono [of d rest fs "join d a"] by auto
    next
      case False
      with Cons Inl show ?thesis by simp
    qed
  next
    case (Inr fs')
    show ?thesis
    proof (cases "f = a")
      case True
      with Inr os_remove_gone [OF Inr] show ?thesis
        using purge_loop_mono [of d rest fs' "join d a"] by auto
    next
      case False
      with Cons Inr show ?thesis by simp
    qed
  qed
qed

lemma child_join: "child d p \<Longrightarrow> join d (drop (length d + 1) p) = p"
proof -
  assume "child d p"
  then have "take (length d + 1) p = d @ lit ''/''"
    by (simp add: child_def startswith_def lit_def)
  then have "(d @ lit ''/'') @ drop (length d + 1) p = p"
    by (metis append_take_drop_id)
  then show ?thesis by (simp add: join_def)
qed

lemma listdir_lists:
  assumes "listdir fs d = Inr names" and "child d p" and "path_exists fs p"
  shows "drop (length d + 1) p \<in> set names"
proof -
  from assms(3) obtain n where "map_of fs p = Some n"
    by (auto simp: path_exists_def)
  then have "(p, n) \<in> set fs" by (rule map_of_SomeD)
  with assms(2) have "(p, n) \<in> set (filter (\<lambda>(p, n). child d p) fs)" by simp
  then have "drop (length d + 1) p
             \<in> set (map (\<lambda>(p, n). drop (length d + 1) p) (filter (\<lambda>(p, n). child d p) fs))"
    by force
  with assms(1) show ?thesis
    by (auto simp: listdir_def split: if_splits)
qed

lemma purge_no_files:
  assumes "isdir fs d" and "child d p"
  shows "\<not> isfile (purge d fs) p"
proof
  assume a: "isfile (purge d fs) p"
  from assms(1) obtain names where l: "listdir fs d = Inr names"
    by (simp add: listdir_def)
  with a have b: "isfile (purge_loop d names fs) p" by (simp add: purge_def)
  then have "isfile fs p" by (rule purge_loop_mono)
  then have "path_exists fs p"
    by (auto simp: isfile_def path_exists_def split: option.splits)
  from listdir_lists [OF l assms(2) this] have "drop (length d + 1) p \<in> set names" .
  then have "\<not> isfile (purge_loop d names fs) (join d (drop (length d + 1) p))"
    by (rule purge_loop_removes)
  with b child_join [OF assms(2)] show False by simp
qed

text \<open>
  When the fetch returns, the run reaches its cleanup whatever the iterations did and
  whenever the stop flag was seen, and (the temporary directory being still there) no
  regular file is left directly in it.
\<close>

lemma download_audio_purges_after_fetch:
  assumes "has_ytdlp env" and "makedirs (fresh_dir env) (files w) (temp_download env) = Inr fs0"
    and "extract_info env link fs0 = (Fetched fetched, fs1)"
    and "isdir (files (batch_loop env 0 (batch_entries fetched) (w\<lparr>files := fs1\<rparr>)))
           (temp_download env)"
    and "child (temp_download env) p"
  shows "\<not> isfile (files (download_audio env link w)) p"
  using assms purge_no_files [OF assms(4) assms(5)]
  by (simp add: download_audio_def Let_def)

lemma download_audio_fetch_raised:
  assumes "has_ytdlp env" and "makedirs (fresh_dir env) (files w) (temp_download env) = Inr fs0"
    and "extract_info env link fs0 = (FetchRaised, fs1)"
  shows "download_audio env link w = w\<lparr>files := fs1\<rparr>"
  using assms by (simp add: download_audio_def)

text \<open>
  C7 fails on the code when the fetch raises: \<open>_download_audio\<close> returns from the
  handler of \<open>extract_info\<close> before the cleanup. Here the fetch raises after writing a
  partial file into the temporary directory; the file is still there when the run
  returns, and the cleanup of the source would have removed it.
\<close>

theorem download_audio_fetch_error_skips_cleanup:
  "listdir (files (download_audio env_demo (lit ''https://x/1'') w_empty)) tmp
     = Inr [lit ''dl_a.webm.part'']
   \<and> isfile (files (download_audio env_demo (lit ''https://x/1'') w_empty))
        (join tmp (lit ''dl_a.webm.part''))
   \<and> listdir (purge tmp (files (download_audio env_demo (lit ''https://x/1'') w_empty))) tmp = Inr []"
  by code_simp

section \<open>Properties of the stream queue\<close>

lemma stream_iteration_fields:
  "queue (stream_iteration ops i n e sp) = queue sp
   \<and> current_index (stream_iteration ops i n e sp) = i
   \<and> (ui (stream_iteration ops i n e sp) = ui sp
        \<or> ui (stream_iteration ops i n e sp) = ui sp @ [UpdateQueueDisplay (queue sp) i])"
  by (auto simp: stream_iteration_def Let_def split: prod.splits sum.splits option.splits)

lemma stream_loop_queue: "queue (stream_loop ops i n es sp) = queue sp"
  by (induction es arbitrary: i sp) (auto simp: stream_iteration_fields)

lemma stream_loop_ui:
  "\<exists>ups. ui (stream_loop ops i n es sp) = ui sp @ ups
         \<and> (\<forall>c \<in> set ups. \<exists>j. i \<le> j \<and> j < i + length es \<and> c = UpdateQueueDisplay (queue sp) j)"
proof (induction es arbitrary: i sp)
  case Nil
  then show ?case by simp
next
  case (Cons e es)
  show ?case
  proof (cases "stop_seen ops i")
    case True
    then show ?thesis by simp
  next
    case False
    let ?sp = "stream_iteration ops i n e sp"
    from Cons [of "Suc i" ?sp] obtain ups where
      u: "ui (stream_loop ops (Suc i) n es ?sp) = ui ?sp @ ups"
         "\<forall>c \<in> set ups. \<exists>j. Suc i \<le> j \<and> j < Suc i + length es
                               \<and> c = UpdateQueueDisplay (queue ?sp) j"
      by blast
    have q: "queue ?sp = queue sp" by (simp add: stream_iteration_fields)
    from stream_iteration_fields [of ops i n e sp]
    obtain first where f: "ui ?sp = ui sp @ first"
      "\<forall>c \<in> set first. c = UpdateQueueDisplay (queue sp) i"
      by (metis append_Nil2 empty_iff empty_set set_ConsD)
    have "ui (stream_loop ops i n (e # es) sp) = ui sp @ (first @ ups)"
      using False u(1) f(1) by simp
    moreover have "\<forall>c \<in> set (first @ ups).
                     \<exists>j. i \<le> j \<and> j < i + length (e # es) \<and> c = UpdateQueueDisplay (queue sp) j"
    proof
      fix c assume "c \<in> set (first @ ups)"
      then consider "c \<in> set first" | "c \<in> set ups" by auto
      then show "\<exists>j. i \<le> j \<and> j < i + length (e # es) \<and> c = UpdateQueueDisplay (queue sp) j"
      proof cases
        case 1
        with f(2) have "c = UpdateQueueDisplay (queue sp) i" by blast
        then show ?thesis by auto
      next
        case 2
        with u(2) q obtain j where "Suc i \<le> j" "j < Suc i + length es"
          "c = UpdateQueueDisplay (queue sp) j" by auto
        then show ?thesis by (intro exI [of _ j]) simp
      qed
    qed
    ultimately show ?thesis by blast
  qed
qed

lemma stream_loop_index:
  "current_index (stream_loop ops i n es sp) =
     (if length (takeWhile (\<lambda>j. \<not> stop_seen ops j) [i..<i + length es]) = 0
      then current_index sp
      else i + length (takeWhile (\<lambda>j. \<not> stop_seen ops j) [i..<i + length es]) - 1)"
proof (induction es arbitrary: i sp)
  case Nil
  then show ?case by simp
next
  case (Cons e es)
  have u: "[i..<i + length (e # es)] = i # [Suc i..<Suc i + length es]"
    by (subst upt_rec) simp
  have t: "takeWhile (\<lambda>j. \<not> stop_seen ops j) [i..<i + length (e # es)]
           = (if stop_seen ops i then []
              else i # takeWhile (\<lambda>j. \<not> stop_seen ops j) [Suc i..<Suc i + length es])"
    by (subst u) simp
  show ?case
  proof (cases "stop_seen ops i")
    case True
    then show ?thesis unfolding t by simp
  next
    case False
    let ?sp = "stream_iteration ops i n e sp"
    let ?k = "length (takeWhile (\<lambda>j. \<not> stop_seen ops j) [Suc i..<Suc i + length es])"
    have c: "current_index ?sp = i" by (simp add: stream_iteration_fields)
    from False have "current_index (stream_loop ops i n (e # es) sp)
                     = current_index (stream_loop ops (Suc i) n es ?sp)" by simp
    also have "\<dots> = (if ?k = 0 then i else Suc i + ?k - 1)"
      using Cons [of "Suc i" ?sp] c by simp
    also have "\<dots> = i + ?k" by simp
    finally show ?thesis unfolding t using False by simp
  qed
qed

lemma takeWhile_all_upt:
  "(\<forall>j < n. P j) \<Longrightarrow> length (takeWhile P [0..<n]) = n"
proof -
  assume "\<forall>j < n. P j"
  then have "takeWhile P [0..<n] = [0..<n]"
    by (intro takeWhile_eq_all_conv [THEN iffD2]) simp
  then have "length (takeWhile P [0..<n]) = length [0..<n]" by (rule arg_cong)
  then show ?thesis by simp
qed

text \<open>
  C8, as the code has it. At the start of a run \<open>current_index\<close> is reset to 0 and the
  queue is left as it was; it is replaced by the resolved entries when there are any. At
  the end of a run that resolved entries, normal or stopped, the clearing of the queue
  display of the UI is scheduled after the display updates of the iterations, but
  \<open>self.queue\<close> still holds the resolved entries and \<open>current_index\<close> is the index of
  the last iteration that started: one less than the number of iterations before the stop
  flag was seen (the last entry when it was never seen, 0 when it was seen at once). When
  no entry is resolved, the run returns with the queue of the run before.
\<close>

theorem stream_playlist_queue_after_run:
  "(get_playlist_entries (ytdlp ops) (resolved ops link) = [] \<longrightarrow>
      queue (stream_playlist ops link sp) = queue sp
      \<and> current_index (stream_playlist ops link sp) = 0
      \<and> ui (stream_playlist ops link sp) = ui sp)
   \<and> (get_playlist_entries (ytdlp ops) (resolved ops link) \<noteq> [] \<longrightarrow>
      queue (stream_playlist ops link sp) = get_playlist_entries (ytdlp ops) (resolved ops link)
      \<and> current_index (stream_playlist ops link sp)
           = length (takeWhile (\<lambda>j. \<not> stop_seen ops j)
                       [0..<length (get_playlist_entries (ytdlp ops) (resolved ops link))]) - 1
      \<and> current_index (stream_playlist ops link sp)
           < length (get_playlist_entries (ytdlp ops) (resolved ops link))
      \<and> (\<exists>ups. ui (stream_playlist ops link sp) = ui sp @ ups @ [ClearQueueDisplay]
                \<and> (\<forall>c \<in> set ups.
                       \<exists>j < length (get_playlist_entries (ytdlp ops) (resolved ops link)).
                          c = UpdateQueueDisplay
                                (get_playlist_entries (ytdlp ops) (resolved ops link)) j)))
   \<and> (get_playlist_entries (ytdlp ops) (resolved ops link) \<noteq> []
        \<and> (\<forall>j < length (get_playlist_entries (ytdlp ops) (resolved ops link)). \<not> stop_seen ops j) \<longrightarrow>
      current_index (stream_playlist ops link sp)
        = length (get_playlist_entries (ytdlp ops) (resolved ops link)) - 1)"
proof -
  let ?es = "get_playlist_entries (ytdlp ops) (resolved ops link)"
  let ?sp1 = "sp\<lparr>current_index := 0, rest := restart ops (rest sp), queue := ?es\<rparr>"
  let ?k = "length (takeWhile (\<lambda>j. \<not> stop_seen ops j) [0..<length ?es])"
  have none: "queue (stream_playlist ops link sp) = queue sp
      \<and> current_index (stream_playlist ops link sp) = 0
      \<and> ui (stream_playlist ops link sp) = ui sp" if "?es = []"
    using that by (simp add: stream_playlist_def Let_def)
  have r: "stream_playlist ops link sp =
             (stream_loop ops 0 (length ?es) ?es ?sp1)
               \<lparr>ui := ui (stream_loop ops 0 (length ?es) ?es ?sp1) @ [ClearQueueDisplay],
                rest := finish ops (rest (stream_loop ops 0 (length ?es) ?es ?sp1))\<rparr>"
    if "?es \<noteq> []"
    using that by (simp add: stream_playlist_def Let_def)
  have idx: "current_index (stream_playlist ops link sp) = ?k - 1" if ne: "?es \<noteq> []"
    using stream_loop_index [of ops 0 "length ?es" ?es ?sp1] by (simp add: r [OF ne])
  have kle: "?k \<le> length ?es"
    using length_takeWhile_le [of "\<lambda>j. \<not> stop_seen ops j" "[0..<length ?es]"] by simp
  have some: "queue (stream_playlist ops link sp) = ?es
      \<and> current_index (stream_playlist ops link sp) = ?k - 1
      \<and> current_index (stream_playlist ops link sp) < length ?es
      \<and> (\<exists>ups. ui (stream_playlist ops link sp) = ui sp @ ups @ [ClearQueueDisplay]
                \<and> (\<forall>c \<in> set ups. \<exists>j < length ?es. c = UpdateQueueDisplay ?es j))"
    if ne: "?es \<noteq> []"
  proof -
    have q: "queue (stream_playlist ops link sp) = ?es"
      by (simp add: r [OF ne] stream_loop_queue)
    from ne kle have lt: "?k - 1 < length ?es" by (cases ?es) auto
    from stream_loop_ui [of ops 0 "length ?es" ?es ?sp1] obtain ups where
      u: "ui (stream_loop ops 0 (length ?es) ?es ?sp1) = ui ?sp1 @ ups"
         "\<forall>c \<in> set ups. \<exists>j. 0 \<le> j \<and> j < 0 + length ?es \<and> c = UpdateQueueDisplay (queue ?sp1) j"
      by blast
    have "ui (stream_playlist ops link sp) = ui sp @ ups @ [ClearQueueDisplay]"
      by (simp add: r [OF ne] u(1))
    moreover from u(2) have "\<forall>c \<in> set ups. \<exists>j < length ?es. c = UpdateQueueDisplay ?es j"
      by auto
    ultimately show ?thesis using q idx [OF ne] lt by auto
  qed
  have last: "current_index (stream_playlist ops link sp) = length ?es - 1"
    if h: "?es \<noteq> [] \<and> (\<forall>j < length ?es. \<not> stop_seen ops j)"
  proof -
    from h have "?k = length ?es"
      by (intro takeWhile_all_upt) simp
    with idx h show ?thesis by simp
  qed
  from none some last show ?thesis by blast
qed

lemma entries_two: "get_playlist_entries (ytdlp ops_two) (resolved ops_two (lit ''https://x/1'')) = two_entries"
  by (simp add: ops_two_def)

theorem stream_playlist_queue_after_run_witness:
  "get_playlist_entries (ytdlp ops_two) (resolved ops_two (lit ''https://x/1'')) \<noteq> []
   \<and> \<not> stop_seen ops_two 0 \<and> \<not> stop_seen ops_two 1
   \<and> queue (stream_playlist ops_two (lit ''https://x/1'') sp_idle) = two_entries
   \<and> current_index (stream_playlist ops_two (lit ''https://x/1'') sp_idle) = 1
   \<and> ui (stream_playlist ops_two (lit ''https://x/1'') sp_idle)
       = [UpdateQueueDisplay two_entries 0, UpdateQueueDisplay two_entries 1, ClearQueueDisplay]"
proof -
  have ne: "two_entries \<noteq> []" "length two_entries = 2" by (simp_all add: two_entries_def)
  have ns: "\<forall>j < length two_entries. \<not> stop_seen ops_two j" by (simp add: ops_two_def)
  have u: "ui (stream_playlist ops_two (lit ''https://x/1'') sp_idle)
       = [UpdateQueueDisplay two_entries 0, UpdateQueueDisplay two_entries 1, ClearQueueDisplay]"
    by code_simp
  show ?thesis
    using stream_playlist_queue_after_run [of ops_two "lit ''https://x/1''" sp_idle]
          ne ns u
    by (simp add: entries_two)
qed

text \<open>
  The claim as stated fails: after a run over two entries that no stop interrupts, the
  queue holds the two entries and the index is 1.
\<close>

theorem stream_playlist_queue_counterexample:
  "queue (stream_playlist ops_two (lit ''https://x/1'') sp_idle) \<noteq> []
   \<and> length (queue (stream_playlist ops_two (lit ''https://x/1'') sp_idle)) = 2
   \<and> current_index (stream_playlist ops_two (lit ''https://x/1'') sp_idle) = 1"
  by code_simp

end
